theory Spec2Isabelle
  imports Complex_Main
begin

section \<open>JavaScript numbers\<close>

text \<open>
  The functions of \<^verbatim>\<open>src/utils/relativity.ts\<close> compute on JavaScript numbers. A number
  is modelled as a finite real, one of the two infinities, or NaN, because the code
  divides by values that can be zero and JavaScript then yields \<^verbatim>\<open>Infinity\<close> or
  \<^verbatim>\<open>NaN\<close> instead of raising. The operations of this section compute exactly on the
  finite values; the rounding JavaScript applies to each result is the function
  \<open>binary64\<close> of the next section, and the functions whose properties depend on it are
  modelled both ways. The sign of zero is not modelled: the zero here is the positive
  one.
\<close>

datatype jsnum = Fin real | PInf | NInf | NaN

text \<open>Comparisons: every comparison with NaN is false, \<^verbatim>\<open>!==\<close> with NaN is true.\<close>

fun js_lt :: "jsnum \<Rightarrow> jsnum \<Rightarrow> bool" where
  "js_lt (Fin x) (Fin y) = (x < y)"
| "js_lt (Fin x) PInf = True"
| "js_lt NInf (Fin y) = True"
| "js_lt NInf PInf = True"
| "js_lt _ _ = False"

fun js_ge :: "jsnum \<Rightarrow> jsnum \<Rightarrow> bool" where
  "js_ge (Fin x) (Fin y) = (y \<le> x)"
| "js_ge PInf (Fin y) = True"
| "js_ge PInf PInf = True"
| "js_ge PInf NInf = True"
| "js_ge (Fin x) NInf = True"
| "js_ge NInf NInf = True"
| "js_ge _ _ = False"

definition js_gt :: "jsnum \<Rightarrow> jsnum \<Rightarrow> bool" where
  "js_gt a b = js_lt b a"

fun js_neq :: "jsnum \<Rightarrow> jsnum \<Rightarrow> bool" where
  "js_neq NaN _ = True"
| "js_neq _ NaN = True"
| "js_neq a b = (a \<noteq> b)"

text \<open>Negation, and the infinity that carries the sign of a finite non-zero value.\<close>

fun js_neg :: "jsnum \<Rightarrow> jsnum" where
  "js_neg (Fin x) = Fin (- x)"
| "js_neg PInf = NInf"
| "js_neg NInf = PInf"
| "js_neg NaN = NaN"

definition signed_inf :: "real \<Rightarrow> jsnum" where
  "signed_inf x = (if 0 < x then PInf else if x < 0 then NInf else NaN)"

fun js_add :: "jsnum \<Rightarrow> jsnum \<Rightarrow> jsnum" where
  "js_add (Fin x) (Fin y) = Fin (x + y)"
| "js_add NaN _ = NaN"
| "js_add _ NaN = NaN"
| "js_add PInf NInf = NaN"
| "js_add NInf PInf = NaN"
| "js_add PInf _ = PInf"
| "js_add NInf _ = NInf"
| "js_add _ PInf = PInf"
| "js_add _ NInf = NInf"

definition js_sub :: "jsnum \<Rightarrow> jsnum \<Rightarrow> jsnum" where
  "js_sub a b = js_add a (js_neg b)"

text \<open>Multiplication: an infinity times zero is NaN.\<close>

fun js_mul :: "jsnum \<Rightarrow> jsnum \<Rightarrow> jsnum" where
  "js_mul (Fin x) (Fin y) = Fin (x * y)"
| "js_mul NaN _ = NaN"
| "js_mul _ NaN = NaN"
| "js_mul PInf (Fin y) = signed_inf y"
| "js_mul NInf (Fin y) = signed_inf (- y)"
| "js_mul (Fin x) PInf = signed_inf x"
| "js_mul (Fin x) NInf = signed_inf (- x)"
| "js_mul PInf PInf = PInf"
| "js_mul NInf NInf = PInf"
| "js_mul PInf NInf = NInf"
| "js_mul NInf PInf = NInf"

text \<open>
  Division never raises: a non-zero finite value over zero is an infinity with the sign
  of the dividend (the zero of the model is the positive zero), zero over zero and
  infinity over infinity are NaN, a finite value over an infinity is zero.
\<close>

fun js_div :: "jsnum \<Rightarrow> jsnum \<Rightarrow> jsnum" where
  "js_div (Fin x) (Fin y) = (if y = 0 then signed_inf x else Fin (x / y))"
| "js_div NaN _ = NaN"
| "js_div _ NaN = NaN"
| "js_div (Fin x) PInf = Fin 0"
| "js_div (Fin x) NInf = Fin 0"
| "js_div PInf (Fin y) = (if 0 \<le> y then PInf else NInf)"
| "js_div NInf (Fin y) = (if 0 \<le> y then NInf else PInf)"
| "js_div _ _ = NaN"

text \<open>\<^verbatim>\<open>x ** n\<close> for a natural exponent (the code only squares).\<close>

fun js_pow :: "jsnum \<Rightarrow> nat \<Rightarrow> jsnum" where
  "js_pow (Fin x) n = Fin (x ^ n)"
| "js_pow a 0 = Fin 1"
| "js_pow NaN n = NaN"
| "js_pow PInf n = PInf"
| "js_pow NInf n = (if even n then PInf else NInf)"

fun js_sqrt :: "jsnum \<Rightarrow> jsnum" where
  "js_sqrt (Fin x) = (if x < 0 then NaN else Fin (sqrt x))"
| "js_sqrt PInf = PInf"
| "js_sqrt NInf = NaN"
| "js_sqrt NaN = NaN"

section \<open>Rounding to binary64\<close>

text \<open>
  JavaScript stores the result of every arithmetic operation as a binary64 number: the
  exact result rounded to the nearest representable value, and to the even one on a
  tie. \<open>binary64\<close> is that rounding on the reals. A value of magnitude at least \<open>2^-1022\<close>
  (\<open>min_normal\<close>, the smallest normal number) keeps 53 significant bits: it is scaled by
  the power of two that brings it into \<open>[2^52, 2^53)\<close>, rounded to an integer, and scaled
  back. A smaller value is subnormal and keeps fewer bits: it is rounded with the
  spacing of the lowest binade, to a multiple of \<open>2^-1074\<close>, so a value below half that
  spacing rounds to zero. \<open>expo64\<close> is the exponent the spacing is taken from: that of the
  value, or \<open>-1022\<close> if that is larger. A rounded value of magnitude \<open>2^1024\<close> or more
  overflows to the infinity of its sign. A real is a double when rounding leaves it
  unchanged and it is below the overflow threshold.
\<close>

definition pow2 :: "int \<Rightarrow> real" where
  "pow2 e = (if 0 \<le> e then 2 ^ nat e else 1 / 2 ^ nat (- e))"

definition round_even :: "real \<Rightarrow> int" where
  "round_even x =
     (let f = \<lfloor>x\<rfloor>; r = x - of_int f
      in if r < 1 / 2 then f else if 1 / 2 < r then f + 1
         else if even f then f else f + 1)"

definition expo :: "real \<Rightarrow> int" where
  "expo x = \<lfloor>log 2 \<bar>x\<bar>\<rfloor>"

definition min_normal :: real where
  "min_normal = 1 / 2 ^ 1022"

definition expo64 :: "real \<Rightarrow> int" where
  "expo64 x = max (expo x) (- 1022)"

definition binary64 :: "real \<Rightarrow> real" where
  "binary64 x =
     (if x = 0 then 0
      else let e = expo64 x
           in of_int (round_even (x / pow2 (e - 52))) * pow2 (e - 52))"

definition overflow64 :: "real \<Rightarrow> jsnum" where
  "overflow64 y = (if 2 ^ 1024 \<le> \<bar>y\<bar> then signed_inf y else Fin y)"

definition is_double :: "real \<Rightarrow> bool" where
  "is_double x = (binary64 x = x \<and> \<bar>x\<bar> < 2 ^ 1024)"

text \<open>Rounding a JavaScript number: the infinities and NaN are kept.\<close>

fun js_round64 :: "jsnum \<Rightarrow> jsnum" where
  "js_round64 (Fin x) = overflow64 (binary64 x)"
| "js_round64 a = a"

section \<open>The physics functions of relativity.ts\<close>

text \<open>\<^verbatim>\<open>throw new Error(msg)\<close> is the only failure of the module.\<close>

datatype error = Error string


definition calculateLorentzFactor :: "jsnum \<Rightarrow> error + jsnum" where
  "calculateLorentzFactor velocityFraction =
     (if js_lt velocityFraction (Fin 0) \<or> js_ge velocityFraction (Fin 1)
      then Inl (Error ''Velocity fraction must be between 0 and 1 (exclusive of 1)'')
      else
        let vSquaredOverCSquared = js_pow velocityFraction 2
        in Inr (js_div (Fin 1) (js_sqrt (js_sub (Fin 1) vSquaredOverCSquared))))"

definition calculateTimeDilation :: "jsnum \<Rightarrow> jsnum \<Rightarrow> error + jsnum" where
  "calculateTimeDilation properTime velocityFraction =
     (case calculateLorentzFactor velocityFraction of
        Inl e \<Rightarrow> Inl e
      | Inr gamma \<Rightarrow> Inr (js_mul properTime gamma))"

definition calculateLengthContraction :: "jsnum \<Rightarrow> jsnum \<Rightarrow> error + jsnum" where
  "calculateLengthContraction properLength velocityFraction =
     (case calculateLorentzFactor velocityFraction of
        Inl e \<Rightarrow> Inl e
      | Inr gamma \<Rightarrow> Inr (js_div properLength gamma))"




definition fractionToPercentage :: "jsnum \<Rightarrow> error + jsnum" where
  "fractionToPercentage fraction =
     (if js_lt fraction (Fin 0) \<or> js_ge fraction (Fin 1)
      then Inl (Error ''Fraction must be between 0 and 1 (exclusive of 1)'')
      else Inr (js_mul fraction (Fin 100)))"

definition calculateContractedDistance :: "jsnum \<Rightarrow> jsnum \<Rightarrow> error + jsnum" where
  "calculateContractedDistance properDistanceLightYears velocityFraction =
     (case calculateLorentzFactor velocityFraction of
        Inl e \<Rightarrow> Inl e
      | Inr gamma \<Rightarrow> Inr (js_div properDistanceLightYears gamma))"

text \<open>The travel time is a bare division: no check, no failure.\<close>

definition calculateTravelTimeInYears :: "jsnum \<Rightarrow> jsnum \<Rightarrow> jsnum" where
  "calculateTravelTimeInYears distanceLightYears velocityFraction =
     js_div distanceLightYears velocityFraction"

definition calculateProperTravelTimeInYears :: "jsnum \<Rightarrow> jsnum \<Rightarrow> error + jsnum" where
  "calculateProperTravelTimeInYears distanceLightYears velocityFraction =
     (let coordinateTimeYears =
            calculateTravelTimeInYears distanceLightYears velocityFraction
      in case calculateLorentzFactor velocityFraction of
           Inl e \<Rightarrow> Inl e
         | Inr gamma \<Rightarrow> Inr (js_div coordinateTimeYears gamma))"

subsection \<open>The same functions with every operation rounded\<close>

text \<open>
  The definitions above compute in exact arithmetic. Where a property speaks of exact
  equality or of the order of computed values, rounding decides it, so the functions
  that scale by the Lorentz factor are written a second time with the result of each
  operation (\<^verbatim>\<open>**\<close>, \<^verbatim>\<open>-\<close>, \<^verbatim>\<open>Math.sqrt\<close>, \<^verbatim>\<open>/\<close>, \<^verbatim>\<open>*\<close>) rounded to binary64, the
  square and the square root correctly rounded as the engines compute them.
\<close>

definition calculateLorentzFactor64 :: "jsnum \<Rightarrow> error + jsnum" where
  "calculateLorentzFactor64 velocityFraction =
     (if js_lt velocityFraction (Fin 0) \<or> js_ge velocityFraction (Fin 1)
      then Inl (Error ''Velocity fraction must be between 0 and 1 (exclusive of 1)'')
      else
        let vSquaredOverCSquared = js_round64 (js_pow velocityFraction 2)
        in Inr (js_round64 (js_div (Fin 1)
                 (js_round64 (js_sqrt (js_round64 (js_sub (Fin 1) vSquaredOverCSquared)))))))"

definition calculateTimeDilation64 :: "jsnum \<Rightarrow> jsnum \<Rightarrow> error + jsnum" where
  "calculateTimeDilation64 properTime velocityFraction =
     (case calculateLorentzFactor64 velocityFraction of
        Inl e \<Rightarrow> Inl e
      | Inr gamma \<Rightarrow> Inr (js_round64 (js_mul properTime gamma)))"

definition calculateLengthContraction64 :: "jsnum \<Rightarrow> jsnum \<Rightarrow> error + jsnum" where
  "calculateLengthContraction64 properLength velocityFraction =
     (case calculateLorentzFactor64 velocityFraction of
        Inl e \<Rightarrow> Inl e
      | Inr gamma \<Rightarrow> Inr (js_round64 (js_div properLength gamma)))"




text \<open>
  The intermediate values of the rounded Lorentz factor of a finite velocity: the
  square, its difference from 1, the square root, and the quotient.
\<close>

definition q64 :: "real \<Rightarrow> real" where "q64 v = binary64 (v\<^sup>2)"
definition x64 :: "real \<Rightarrow> real" where "x64 v = binary64 (1 - q64 v)"
definition s64 :: "real \<Rightarrow> real" where "s64 v = binary64 (sqrt (x64 v))"
definition g64 :: "real \<Rightarrow> real" where "g64 v = binary64 (1 / s64 v)"

section \<open>Rendering numbers as text\<close>

text \<open>
  Template literals and \<^verbatim>\<open>toFixed\<close> turn numbers into decimal text. The model writes
  the decimal expansion of the real: the integer part, then the fractional digits (at
  most 17 of them, the precision JavaScript prints). That is the text JavaScript prints
  for the values \<^verbatim>\<open>formatTime\<close> renders this way, which are whole numbers and tenths;
  the exponent notation of magnitudes from \<^verbatim>\<open>1e21\<close> on is not modelled.
\<close>

definition digit_char :: "nat \<Rightarrow> char" where
  "digit_char d = ''0123456789'' ! d"

fun show_nat :: "nat \<Rightarrow> string" where
  "show_nat n =
     (if n < 10 then [digit_char n] else show_nat (n div 10) @ [digit_char (n mod 10)])"

fun frac_digits :: "nat \<Rightarrow> real \<Rightarrow> string" where
  "frac_digits 0 f = []"
| "frac_digits (Suc k) f =
     (if f = 0 then []
      else digit_char (nat \<lfloor>f * 10\<rfloor>) # frac_digits k (f * 10 - of_int \<lfloor>f * 10\<rfloor>))"

definition real_to_string :: "real \<Rightarrow> string" where
  "real_to_string x =
     (let a = \<bar>x\<bar>; f = a - of_int \<lfloor>a\<rfloor>
      in (if x < 0 then ''-'' else []) @ show_nat (nat \<lfloor>a\<rfloor>) @
         (if f = 0 then [] else ''.'' @ frac_digits 17 f))"

fun js_to_string :: "jsnum \<Rightarrow> string" where
  "js_to_string (Fin x) = real_to_string x"
| "js_to_string PInf = ''Infinity''"
| "js_to_string NInf = ''-Infinity''"
| "js_to_string NaN = ''NaN''"

text \<open>
  \<^verbatim>\<open>x.toFixed(d)\<close>: the integer \<open>n\<close> nearest to \<open>x * 10^d\<close> (the larger one on a
  tie), written with \<open>d\<close> digits after the point; a value that is not finite is
  rendered as by a template literal.
\<close>

definition pad_zeros :: "nat \<Rightarrow> string \<Rightarrow> string" where
  "pad_zeros k s = replicate (k - length s) (CHR ''0'') @ s"

definition real_toFixed :: "real \<Rightarrow> nat \<Rightarrow> string" where
  "real_toFixed x d =
     (let n = nat \<lfloor>\<bar>x\<bar> * 10 ^ d + 1 / 2\<rfloor>;
          whole = show_nat (n div 10 ^ d);
          part = (if d = 0 then [] else ''.'' @ pad_zeros d (show_nat (n mod 10 ^ d)))
      in (if x < 0 then ''-'' else []) @ whole @ part)"

fun toFixed :: "jsnum \<Rightarrow> nat \<Rightarrow> string" where
  "toFixed (Fin x) d = real_toFixed x d"
| "toFixed a d = js_to_string a"

section \<open>Math.floor, Math.round and the remainder operator\<close>

fun js_floor :: "jsnum \<Rightarrow> jsnum" where
  "js_floor (Fin x) = Fin (of_int \<lfloor>x\<rfloor>)"
| "js_floor a = a"

text \<open>\<^verbatim>\<open>Math.round\<close> rounds a half up, towards plus infinity.\<close>

fun js_round :: "jsnum \<Rightarrow> jsnum" where
  "js_round (Fin x) = Fin (of_int \<lfloor>x + 1 / 2\<rfloor>)"
| "js_round a = a"

text \<open>
  \<^verbatim>\<open>x % y\<close> is the remainder of the division truncated towards zero: it has the sign
  of \<open>x\<close>. It is NaN for an infinite \<open>x\<close> or a zero \<open>y\<close>, and \<open>x\<close> for an infinite \<open>y\<close>.
\<close>

definition trunc :: "real \<Rightarrow> int" where
  "trunc q = (if 0 \<le> q then \<lfloor>q\<rfloor> else \<lceil>q\<rceil>)"

fun js_mod :: "jsnum \<Rightarrow> jsnum \<Rightarrow> jsnum" where
  "js_mod (Fin x) (Fin y) = (if y = 0 then NaN else Fin (x - y * of_int (trunc (x / y))))"
| "js_mod NaN _ = NaN"
| "js_mod _ NaN = NaN"
| "js_mod (Fin x) _ = Fin x"
| "js_mod _ _ = NaN"

section \<open>formatTime\<close>

text \<open>
  \<^verbatim>\<open>FormattedTime\<close> has four optional components; an object literal that leaves one out
  leaves it \<open>None\<close> here.
\<close>

record FormattedTime =
  years :: "jsnum option"
  months :: "jsnum option"
  days :: "jsnum option"
  hours :: "jsnum option"
  totalYears :: jsnum
  formatted :: string

definition DAYS_PER_YEAR :: real where
  "DAYS_PER_YEAR = 365.25"

definition HOURS_PER_DAY :: real where
  "HOURS_PER_DAY = 24"

definition DAYS_PER_MONTH :: real where
  "DAYS_PER_MONTH = 30.44"

text \<open>The unit with its suffix, as each template literal of the code writes it.\<close>

definition plural :: "jsnum \<Rightarrow> string" where
  "plural n = (if js_neq n (Fin 1) then ''s'' else [])"

text \<open>
  The function has four return statements and no \<^verbatim>\<open>throw\<close>: it is total, and a
  negative, infinite or NaN argument falls through the comparisons to the last branch
  (or, for plus infinity, into the first).
\<close>

definition formatTime :: "jsnum \<Rightarrow> FormattedTime" where
  "formatTime timeInYears =
     (let totalYears = timeInYears in
      if js_ge timeInYears (Fin 1) then
        \<lparr>years = Some timeInYears, months = None, days = None, hours = None,
         totalYears = totalYears,
         formatted = toFixed timeInYears 2 @ '' years''\<rparr>
      else
        let totalDays = js_mul timeInYears (Fin DAYS_PER_YEAR) in
        if js_ge totalDays (Fin DAYS_PER_MONTH) then
          let months = js_floor (js_div totalDays (Fin DAYS_PER_MONTH));
              remainingDays = js_floor (js_mod totalDays (Fin DAYS_PER_MONTH));
              remainingHours =
                js_floor (js_mul (js_mod totalDays (Fin 1)) (Fin HOURS_PER_DAY));
              formatted = js_to_string months @ '' month'' @ plural months;
              formatted = (if js_gt remainingDays (Fin 0)
                       then formatted @ '', '' @ js_to_string remainingDays @ '' day'' @
                            plural remainingDays
                       else formatted);
              formatted = (if js_gt remainingHours (Fin 0)
                       then formatted @ '', '' @ js_to_string remainingHours @ '' hour'' @
                            plural remainingHours
                       else formatted)
          in \<lparr>years = None, months = Some months, days = Some remainingDays,
              hours = Some remainingHours, totalYears = totalYears, formatted = formatted\<rparr>
        else if js_ge totalDays (Fin 1) then
          let days = js_floor totalDays;
              hours = js_floor (js_mul (js_mod totalDays (Fin 1)) (Fin HOURS_PER_DAY));
              formatted = js_to_string days @ '' day'' @ plural days;
              formatted = (if js_gt hours (Fin 0)
                       then formatted @ '', '' @ js_to_string hours @ '' hour'' @ plural hours
                       else formatted)
          in \<lparr>years = None, months = None, days = Some days, hours = Some hours,
              totalYears = totalYears, formatted = formatted\<rparr>
        else
          let hours = js_div
                    (js_round (js_mul (js_mul totalDays (Fin HOURS_PER_DAY)) (Fin 10)))
                    (Fin 10)
          in \<lparr>years = None, months = None, days = None, hours = Some hours,
              totalYears = totalYears,
              formatted = js_to_string hours @ '' hour'' @ plural hours\<rparr>)"

section \<open>Journey effects\<close>

text \<open>
  The object \<^verbatim>\<open>calculateDistanceEffects\<close> returns has no type name in the source; its
  fields carry the prefix \<open>de_\<close> here, because \<^verbatim>\<open>RelativisticDistanceEffects\<close> below uses
  the same field names.
\<close>

record DistanceEffects =
  de_properDistance :: jsnum
  de_contractedDistance :: jsnum
  de_contractionFactor :: jsnum
  de_coordinateTime :: jsnum
  de_properTime :: jsnum
  de_properTimeFormatted :: FormattedTime
  de_coordinateTimeFormatted :: FormattedTime
  de_timeDilationFactor :: jsnum

definition calculateDistanceEffects :: "jsnum \<Rightarrow> jsnum \<Rightarrow> error + DistanceEffects" where
  "calculateDistanceEffects properDistanceLightYears velocityFraction =
     (case calculateContractedDistance properDistanceLightYears velocityFraction of
        Inl e \<Rightarrow> Inl e
      | Inr contractedDistance \<Rightarrow>
          let coordinateTime =
                calculateTravelTimeInYears properDistanceLightYears velocityFraction
          in case calculateProperTravelTimeInYears properDistanceLightYears
                    velocityFraction of
               Inl e \<Rightarrow> Inl e
             | Inr properTime \<Rightarrow>
                 Inr \<lparr>de_properDistance = properDistanceLightYears,
                      de_contractedDistance = contractedDistance,
                      de_contractionFactor =
                        js_div contractedDistance properDistanceLightYears,
                      de_coordinateTime = coordinateTime,
                      de_properTime = properTime,
                      de_properTimeFormatted = formatTime properTime,
                      de_coordinateTimeFormatted = formatTime coordinateTime,
                      de_timeDilationFactor = js_div coordinateTime properTime\<rparr>)"

record RelativisticEffects =
  velocityFraction :: jsnum
  percentageOfLightSpeed :: jsnum
  lorentzFactor :: jsnum
  timeDilationFactor :: jsnum
  lengthContractionFactor :: jsnum

record RelativisticDistanceEffects = RelativisticEffects +
  properDistance :: jsnum
  contractedDistance :: jsnum
  coordinateTime :: jsnum
  properTime :: jsnum
  properTimeFormatted :: FormattedTime
  coordinateTimeFormatted :: FormattedTime

definition calculateAllEffects :: "jsnum \<Rightarrow> error + RelativisticEffects" where
  "calculateAllEffects v =
     (case calculateLorentzFactor v of
        Inl e \<Rightarrow> Inl e
      | Inr gamma \<Rightarrow>
          (case fractionToPercentage v of
             Inl e \<Rightarrow> Inl e
           | Inr percentage \<Rightarrow>
               Inr \<lparr>velocityFraction = v,
                    percentageOfLightSpeed = percentage,
                    lorentzFactor = gamma,
                    timeDilationFactor = gamma,
                    lengthContractionFactor = js_div (Fin 1) gamma\<rparr>))"

definition calculateAllEffectsWithDistance ::
  "jsnum \<Rightarrow> jsnum \<Rightarrow> error + RelativisticDistanceEffects" where
  "calculateAllEffectsWithDistance v distanceLightYears =
     (case calculateAllEffects v of
        Inl e \<Rightarrow> Inl e
      | Inr basicEffects \<Rightarrow>
          (case calculateDistanceEffects distanceLightYears v of
             Inl e \<Rightarrow> Inl e
           | Inr distanceEffects \<Rightarrow>
               Inr (RelativisticEffects.extend basicEffects
                      (RelativisticDistanceEffects.fields
                         (de_properDistance distanceEffects)
                         (de_contractedDistance distanceEffects)
                         (de_coordinateTime distanceEffects)
                         (de_properTime distanceEffects)
                         (de_properTimeFormatted distanceEffects)
                         (de_coordinateTimeFormatted distanceEffects)))))"

section \<open>The clock of the RelativisticClock component\<close>

text \<open>
  The component keeps two state cells and two refs:
  \<^verbatim>\<open>spacecraftTime\<close> and \<^verbatim>\<open>earthTime\<close> (seconds elapsed, both \<^verbatim>\<open>useState(0)\<close>),
  \<^verbatim>\<open>lastUpdateRef\<close> (the \<^verbatim>\<open>Date.now()\<close> of the last update, in milliseconds) and
  \<^verbatim>\<open>currentTimeDilationRef\<close> (the factor the next interval callback multiplies by).
  They are the fields of one record, and each callback of the component is a function
  from the state before to the state after. \<^verbatim>\<open>Date.now()\<close> is an integer number of
  milliseconds, passed in as an argument; the accumulators and the factor are finite
  numbers, on which the code only adds, subtracts, multiplies and divides by 1000, so
  they are reals here, computed exactly.
\<close>

record ClockState =
  spacecraftTime :: real
  earthTime :: real
  lastUpdate :: int
  currentTimeDilation :: real

text \<open>
  Mounting: both accumulators start at 0, the ref holds the prop, and the mount effect
  stores \<^verbatim>\<open>Date.now()\<close> before it starts the interval.
\<close>

definition mount :: "int \<Rightarrow> real \<Rightarrow> ClockState" where
  "mount now factor =
     \<lparr>spacecraftTime = 0, earthTime = 0, lastUpdate = now, currentTimeDilation = factor\<rparr>"

text \<open>The effect on \<^verbatim>\<open>[timeDilationFactor]\<close>: it stores the new prop in the ref, nothing else.\<close>

definition setTimeDilation :: "real \<Rightarrow> ClockState \<Rightarrow> ClockState" where
  "setTimeDilation factor s = s\<lparr>currentTimeDilation := factor\<rparr>"

text \<open>
  The interval callback. \<^verbatim>\<open>deltaTime\<close> is the difference of the two timestamps over
  1000, whatever its sign: the callback has no comparison and no \<^verbatim>\<open>throw\<close>.
\<close>

definition tick :: "int \<Rightarrow> ClockState \<Rightarrow> ClockState" where
  "tick now s =
     (let deltaTime = real_of_int (now - lastUpdate s) / 1000
      in s\<lparr>spacecraftTime := spacecraftTime s + deltaTime,
            earthTime := earthTime s + deltaTime * currentTimeDilation s,
            lastUpdate := now\<rparr>)"

definition resetClocks :: "int \<Rightarrow> ClockState \<Rightarrow> ClockState" where
  "resetClocks now s = s\<lparr>spacecraftTime := 0, earthTime := 0, lastUpdate := now\<rparr>"

text \<open>
  A running clock sees interval callbacks and prop changes in some order; \<open>run\<close> applies
  them from left to right.
\<close>

datatype clock_event = Tick int | SetDilation real

fun step :: "clock_event \<Rightarrow> ClockState \<Rightarrow> ClockState" where
  "step (Tick now) s = tick now s"
| "step (SetDilation factor) s = setTimeDilation factor s"

fun run :: "clock_event list \<Rightarrow> ClockState \<Rightarrow> ClockState" where
  "run [] s = s"
| "run (e # es) s = run es (step e s)"

text \<open>
  The timestamps of a sequence are non-decreasing when no tick is earlier than the
  timestamp stored before it (the first one no earlier than the stored start).
\<close>

fun nondecreasing_ticks :: "ClockState \<Rightarrow> clock_event list \<Rightarrow> bool" where
  "nondecreasing_ticks s [] = True"
| "nondecreasing_ticks s (Tick now # es) =
     (lastUpdate s \<le> now \<and> nondecreasing_ticks (tick now s) es)"
| "nondecreasing_ticks s (SetDilation factor # es) =
     nondecreasing_ticks (setTimeDilation factor s) es"

text \<open>The factor in force at every tick of the sequence is at least \<open>c\<close>.\<close>

fun factor_at_least :: "real \<Rightarrow> ClockState \<Rightarrow> clock_event list \<Rightarrow> bool" where
  "factor_at_least c s [] = True"
| "factor_at_least c s (Tick now # es) =
     (c \<le> currentTimeDilation s \<and> factor_at_least c (tick now s) es)"
| "factor_at_least c s (SetDilation factor # es) =
     factor_at_least c (setTimeDilation factor s) es"

section \<open>Reading a formatted duration\<close>


text \<open>
  The pluralisation rule in the words of the specification: a value, a space, the unit,
  and an \<^verbatim>\<open>s\<close> unless the value is exactly 1. A canonical string is a list of such
  texts joined by a comma and a space; \<open>component\<close> is the component a unit stands for.
\<close>

definition unit_text :: "jsnum \<Rightarrow> string \<Rightarrow> string" where
  "unit_text c u = js_to_string c @ '' '' @ u @ (if c = Fin 1 then [] else ''s'')"

fun join_comma :: "string list \<Rightarrow> string" where
  "join_comma [] = []"
| "join_comma [a] = a"
| "join_comma (a # b # r) = a @ '', '' @ join_comma (b # r)"

definition component :: "FormattedTime \<Rightarrow> string \<Rightarrow> jsnum option" where
  "component f u =
     (if u = ''month'' then months f else if u = ''day'' then days f
      else if u = ''hour'' then hours f else None)"

section \<open>The clock: what a tick does\<close>

lemma tick_fields:
  "spacecraftTime (tick now s) = spacecraftTime s + real_of_int (now - lastUpdate s) / 1000"
  "earthTime (tick now s) =
     earthTime s + real_of_int (now - lastUpdate s) / 1000 * currentTimeDilation s"
  "lastUpdate (tick now s) = now"
  "currentTimeDilation (tick now s) = currentTimeDilation s"
  by (simp_all add: tick_def)

text \<open>
  Claim C2. Dilation-factor changes are forward-only. A clock mounted with factor 2 and
  ticked one second (1000 ms) later shows 1 s of traveler time and 2 s of observer time;
  after the factor is set to 5 and a second tick one second later it shows 2 s and 7 s
  (not 10 s). Storing a new factor changes neither accumulator.
\<close>

theorem dilation_change_is_forward_only:
  "spacecraftTime (run [Tick (t0 + 1000)] (mount t0 2)) = 1
   \<and> earthTime (run [Tick (t0 + 1000)] (mount t0 2)) = 2
   \<and> spacecraftTime
        (run [Tick (t0 + 1000), SetDilation 5, Tick (t0 + 2000)] (mount t0 2)) = 2
   \<and> earthTime
        (run [Tick (t0 + 1000), SetDilation 5, Tick (t0 + 2000)] (mount t0 2)) = 7
   \<and> spacecraftTime (setTimeDilation g s) = spacecraftTime s
   \<and> earthTime (setTimeDilation g s) = earthTime s"
  by (simp add: mount_def tick_def setTimeDilation_def)

text \<open>
  Claim C3, as stated, fails: a tick whose timestamp is earlier than the stored one
  subtracts. From 5 s of traveler time and 10 s of observer time at factor 2, a tick
  1000 ms before the stored timestamp leaves 4 s and 8 s.
\<close>

theorem tick_backwards_counterexample:
  "1000 < lastUpdate
      \<lparr>spacecraftTime = 5, earthTime = 10, lastUpdate = 2000, currentTimeDilation = 2\<rparr>
   \<and> spacecraftTime (tick 1000
      \<lparr>spacecraftTime = 5, earthTime = 10, lastUpdate = 2000, currentTimeDilation = 2\<rparr>) = 4
   \<and> earthTime (tick 1000
      \<lparr>spacecraftTime = 5, earthTime = 10, lastUpdate = 2000, currentTimeDilation = 2\<rparr>) = 8"
  by (simp add: tick_def)

text \<open>
  Claim C3, amended. For every clock state and every timestamp \<open>now\<close> earlier than the
  stored one, the tick (a total function: it raises nothing) does not clamp the delta:
  it takes the elapsed seconds \<open>(lastUpdate - now) / 1000\<close> off the traveler
  accumulator, that amount times the current factor off the observer accumulator, and
  stores \<open>now\<close>. In the exact arithmetic of the clock model the traveler accumulator
  becomes strictly smaller.
\<close>

theorem tick_backwards_subtracts:
  "now < lastUpdate s \<Longrightarrow>
     spacecraftTime (tick now s) =
       spacecraftTime s - real_of_int (lastUpdate s - now) / 1000
   \<and> earthTime (tick now s) =
       earthTime s - real_of_int (lastUpdate s - now) / 1000 * currentTimeDilation s
   \<and> spacecraftTime (tick now s) < spacecraftTime s
   \<and> lastUpdate (tick now s) = now"
  by (simp add: tick_def algebra_simps diff_divide_distrib)

theorem tick_backwards_subtracts_witness:
  "1000 < lastUpdate (mount 2000 3)
   \<and> spacecraftTime (tick 1000 (mount 2000 3)) = - 1
   \<and> earthTime (tick 1000 (mount 2000 3)) = - 3
   \<and> spacecraftTime (tick 1000 (mount 2000 3)) < spacecraftTime (mount 2000 3)
   \<and> lastUpdate (tick 1000 (mount 2000 3)) = 1000"
  using tick_backwards_subtracts [of 1000 "mount 2000 3"]
  by (simp add: mount_def)

section \<open>The clock: sequences of ticks\<close>

lemma run_append: "run (es @ fs) s = run fs (run es s)"
  by (induction es arbitrary: s) simp_all

lemma nondecreasing_ticks_append:
  "nondecreasing_ticks s (es @ fs) =
     (nondecreasing_ticks s es \<and> nondecreasing_ticks (run es s) fs)"
  by (induction s es rule: nondecreasing_ticks.induct) simp_all

lemma factor_at_least_append:
  "factor_at_least c s (es @ fs) =
     (factor_at_least c s es \<and> factor_at_least c (run es s) fs)"
  by (induction c s es rule: factor_at_least.induct) simp_all

lemma traveler_mono:
  "nondecreasing_ticks s es \<Longrightarrow> spacecraftTime s \<le> spacecraftTime (run es s)"
proof (induction s es rule: nondecreasing_ticks.induct)
  case (1 s)
  then show ?case by simp
next
  case (2 s now es)
  then have "spacecraftTime (tick now s) \<le> spacecraftTime (run es (tick now s))"
    by simp
  moreover from 2 have "spacecraftTime s \<le> spacecraftTime (tick now s)"
    by (simp add: tick_def)
  ultimately show ?case by simp
next
  case (3 s factor es)
  then show ?case by (simp add: setTimeDilation_def)
qed

lemma observer_mono:
  "nondecreasing_ticks s es \<Longrightarrow> factor_at_least 0 s es \<Longrightarrow>
     earthTime s \<le> earthTime (run es s)"
proof (induction s es rule: nondecreasing_ticks.induct)
  case (1 s)
  then show ?case by simp
next
  case (2 s now es)
  then have "earthTime (tick now s) \<le> earthTime (run es (tick now s))"
    by simp
  moreover from 2 have "earthTime s \<le> earthTime (tick now s)"
    by (simp add: tick_def)
  ultimately show ?case by simp
next
  case (3 s factor es)
  then show ?case by (simp add: setTimeDilation_def)
qed

lemma tick_keeps_observer_ahead:
  assumes "lastUpdate s \<le> now" and "1 \<le> currentTimeDilation s"
    and "spacecraftTime s \<le> earthTime s"
  shows "spacecraftTime (tick now s) \<le> earthTime (tick now s)"
proof -
  define d where "d = real_of_int (now - lastUpdate s) / 1000"
  from assms(1) have "0 \<le> d"
    by (simp add: d_def)
  with assms(2) have "d * 1 \<le> d * currentTimeDilation s"
    by (intro mult_left_mono) simp_all
  with assms(3) show ?thesis
    unfolding tick_fields d_def [symmetric] by simp
qed

lemma observer_ahead:
  "nondecreasing_ticks s es \<Longrightarrow> factor_at_least 1 s es \<Longrightarrow>
     spacecraftTime s \<le> earthTime s \<Longrightarrow>
     spacecraftTime (run es s) \<le> earthTime (run es s)"
proof (induction s es rule: nondecreasing_ticks.induct)
  case (1 s)
  then show ?case by simp
next
  case (2 s now es)
  from "2.prems" have "spacecraftTime (tick now s) \<le> earthTime (tick now s)"
    by (intro tick_keeps_observer_ahead) simp_all
  with "2.IH" "2.prems" show ?case by simp
next
  case (3 s factor es)
  then show ?case by (simp add: setTimeDilation_def)
qed

lemma factor_at_least_weaken:
  "c' \<le> c \<Longrightarrow> factor_at_least c s es \<Longrightarrow> factor_at_least c' s es"
  by (induction c s es rule: factor_at_least.induct) simp_all

section \<open>The Lorentz factor on finite velocities\<close>

lemma lorentz_finite:
  assumes "0 \<le> v" and "v < 1"
  shows "calculateLorentzFactor (Fin v) = Inr (Fin (1 / sqrt (1 - v\<^sup>2)))"
proof -
  from assms have "v\<^sup>2 < 1"
    by (simp add: power_less_one_iff)
  then have "0 < sqrt (1 - v\<^sup>2)"
    by simp
  with assms show ?thesis
    by (simp add: calculateLorentzFactor_def js_sub_def)
qed

lemma lorentz_denominator:
  assumes "0 \<le> v" and "v < 1"
  shows "0 < sqrt (1 - v\<^sup>2)" and "sqrt (1 - v\<^sup>2) \<le> 1"
proof -
  from assms have "v\<^sup>2 < 1"
    by (simp add: power_less_one_iff)
  then show "0 < sqrt (1 - v\<^sup>2)"
    by simp
  have "1 - v\<^sup>2 \<le> 1"
    by simp
  then have "sqrt (1 - v\<^sup>2) \<le> sqrt 1"
    by (rule real_sqrt_le_mono)
  then show "sqrt (1 - v\<^sup>2) \<le> 1"
    by simp
qed

lemma lorentz_ge_one:
  assumes "0 \<le> v" and "v < 1"
  shows "1 \<le> 1 / sqrt (1 - v\<^sup>2)"
  using lorentz_denominator [OF assms] by (simp add: le_divide_eq)

lemma lorentz_strict_mono:
  assumes "0 \<le> u" and "u < v" and "v < 1"
  shows "1 / sqrt (1 - u\<^sup>2) < 1 / sqrt (1 - v\<^sup>2)"
proof -
  from assms have "u\<^sup>2 < v\<^sup>2"
    by (simp add: power_strict_mono)
  then have "sqrt (1 - v\<^sup>2) < sqrt (1 - u\<^sup>2)"
    by simp
  moreover from assms have "0 < sqrt (1 - v\<^sup>2)"
    using lorentz_denominator(1) [of v] by simp
  ultimately show ?thesis
    by (simp add: frac_less2)
qed

lemma lorentz_rejects:
  assumes "js_lt v (Fin 0) \<or> js_ge v (Fin 1)"
  shows "calculateLorentzFactor v =
    Inl (Error ''Velocity fraction must be between 0 and 1 (exclusive of 1)'')"
  using assms by (simp add: calculateLorentzFactor_def)

lemma lorentz_zero: "calculateLorentzFactor (Fin 0) = Inr (Fin 1)"
  by (simp add: calculateLorentzFactor_def js_sub_def)

text \<open>The velocity 3/5 has the rational Lorentz factor 5/4.\<close>

lemma sqrt_three_fifths: "sqrt (1 - (3 / 5)\<^sup>2) = 4 / 5"
  by (rule real_sqrt_unique) (simp_all add: power2_eq_square)

lemma lorentz_three_fifths: "calculateLorentzFactor (Fin (3 / 5)) = Inr (Fin (5 / 4))"
  using lorentz_finite [of "3 / 5"] unfolding sqrt_three_fifths by simp

section \<open>Rounding: evaluation, order and error\<close>

lemma pow2_pos: "0 < pow2 e"
  by (simp add: pow2_def)

lemma pow2_powr: "pow2 e = 2 powr (real_of_int e)"
proof (cases "0 \<le> e")
  case True
  then have "real_of_int e = real (nat e)" by simp
  then have "2 powr (real_of_int e) = 2 ^ nat e"
    by (simp only: powr_realpow)
  with True show ?thesis
    by (simp add: pow2_def)
next
  case False
  then have "real_of_int e = - real (nat (- e))" by simp
  then have "2 powr (real_of_int e) = inverse (2 powr real (nat (- e)))"
    by (simp only: powr_minus)
  also have "\<dots> = 1 / 2 ^ nat (- e)"
    by (simp add: powr_realpow inverse_eq_divide)
  finally show ?thesis
    using False by (simp add: pow2_def)
qed

lemma expo_eq:
  assumes "pow2 e \<le> \<bar>x\<bar>" and "\<bar>x\<bar> < pow2 (e + 1)"
  shows "expo x = e"
proof -
  from assms(1) pow2_pos [of e] have "0 < \<bar>x\<bar>" by linarith
  then show ?thesis
    using assms unfolding expo_def
    by (simp add: floor_log_eq_powr_iff pow2_powr)
qed

lemma round_even_unique:
  assumes "of_int k - 1 / 2 < x" and "x < of_int k + 1 / 2"
  shows "round_even x = k"
proof -
  have "\<lfloor>x\<rfloor> = k \<or> \<lfloor>x\<rfloor> = k - 1"
    using assms by linarith
  then show ?thesis
  proof
    assume "\<lfloor>x\<rfloor> = k"
    moreover from this assms have "x - of_int k < 1 / 2" by linarith
    ultimately show ?thesis by (simp add: round_even_def)
  next
    assume f: "\<lfloor>x\<rfloor> = k - 1"
    from assms have "1 / 2 < x - of_int (k - 1)" by simp
    with f show ?thesis by (simp add: round_even_def Let_def)
  qed
qed

lemma round_even_of_int: "round_even (of_int k) = k"
  by (simp add: round_even_def)

lemma round_even_floor: "\<lfloor>x\<rfloor> \<le> round_even x" and round_even_ceil: "round_even x \<le> \<lfloor>x\<rfloor> + 1"
  by (simp_all add: round_even_def Let_def)

lemma round_even_mono:
  assumes "x \<le> y"
  shows "round_even x \<le> round_even y"
proof (cases "\<lfloor>x\<rfloor> = \<lfloor>y\<rfloor>")
  case True
  with assms have "x - of_int \<lfloor>x\<rfloor> \<le> y - of_int \<lfloor>y\<rfloor>"
    by simp
  with True show ?thesis
    by (auto simp add: round_even_def Let_def)
next
  case False
  with assms have "\<lfloor>x\<rfloor> + 1 \<le> \<lfloor>y\<rfloor>"
    using floor_mono [OF assms] by linarith
  with round_even_ceil [of x] round_even_floor [of y] show ?thesis
    by linarith
qed

lemma round_even_error: "\<bar>of_int (round_even x) - x\<bar> \<le> 1 / 2"
proof -
  have "of_int \<lfloor>x\<rfloor> \<le> x" "x < of_int \<lfloor>x\<rfloor> + 1"
    by linarith+
  then show ?thesis
    by (auto simp add: round_even_def Let_def) 
qed

lemma pow2_add: "pow2 (a + b) = pow2 a * pow2 b"
  by (simp add: pow2_powr powr_add)

lemma pow2_mono: "a \<le> b \<Longrightarrow> pow2 a \<le> pow2 b"
  by (simp add: pow2_powr)

lemma expo_bounds:
  assumes "x \<noteq> 0"
  shows "pow2 (expo x) \<le> \<bar>x\<bar>" and "\<bar>x\<bar> < pow2 (expo x + 1)"
proof -
  from assms have "0 < \<bar>x\<bar>" by simp
  then have "2 powr (real_of_int (expo x)) \<le> \<bar>x\<bar> \<and> \<bar>x\<bar> < 2 powr (real_of_int (expo x + 1))"
    using floor_log_eq_powr_iff [of "\<bar>x\<bar>" 2 "expo x"] by (simp add: expo_def)
  then show "pow2 (expo x) \<le> \<bar>x\<bar>" and "\<bar>x\<bar> < pow2 (expo x + 1)"
    by (simp_all add: pow2_powr)
qed

lemma expo_mono:
  assumes "0 < x" and "x \<le> y"
  shows "expo x \<le> expo y"
  unfolding expo_def using assms by (intro floor_mono) simp


lemma pow2_52: "pow2 52 = 2 ^ 52" and pow2_53: "pow2 53 = 2 ^ 53"
  by (simp_all add: pow2_def)

lemma pow2_split:
  shows "pow2 e = 2 ^ 52 * pow2 (e - 52)" and "pow2 (e + 1) = 2 ^ 53 * pow2 (e - 52)"
proof -
  have "pow2 (52 + (e - 52)) = pow2 52 * pow2 (e - 52)"
    by (rule pow2_add)
  then show "pow2 e = 2 ^ 52 * pow2 (e - 52)"
    by (simp add: pow2_52)
  have "pow2 (53 + (e - 52)) = pow2 53 * pow2 (e - 52)"
    by (rule pow2_add)
  moreover have "53 + (e - 52) = e + 1"
    by simp
  ultimately show "pow2 (e + 1) = 2 ^ 53 * pow2 (e - 52)"
    by (simp only: pow2_53)
qed

lemma pow2_less_imp: "pow2 a < pow2 b \<Longrightarrow> a < b"
  using pow2_mono [of b a] by (cases "b \<le> a") simp_all

lemma pow2_subnormal: "pow2 (- 1022) = min_normal"
  by (simp add: pow2_def min_normal_def)

lemma min_normal_pos: "0 < min_normal"
  by (simp add: min_normal_def)

lemma min_normal_small: "min_normal \<le> 1 / 2 ^ 26"
proof -
  have "(2::real) ^ 26 \<le> 2 ^ 1022"
    by (rule power_increasing) simp_all
  then show ?thesis
    unfolding min_normal_def by (intro divide_left_mono) simp_all
qed

lemma expo64_ge: "- 1022 \<le> expo64 x"
  by (simp add: expo64_def)

lemma expo64_neg: "expo64 (- x) = expo64 x"
  by (simp add: expo64_def expo_def)

lemma expo64_eq:
  assumes "x \<noteq> 0" and "\<bar>x\<bar> < pow2 (e + 1)" and "pow2 e \<le> \<bar>x\<bar> \<or> e = - 1022"
    and "- 1022 \<le> e"
  shows "expo64 x = e"
proof (cases "pow2 e \<le> \<bar>x\<bar>")
  case True
  then have "expo x = e"
    using assms(2) by (intro expo_eq)
  with assms(4) show ?thesis
    by (simp add: expo64_def)
next
  case False
  with assms(3) have e: "e = - 1022"
    by simp
  from expo_bounds(1) [OF assms(1)] False have "pow2 (expo x) < pow2 e"
    by linarith
  then have "expo x < e"
    by (rule pow2_less_imp)
  with e show ?thesis
    by (simp add: expo64_def)
qed

lemma expo64_upper:
  assumes "x \<noteq> 0"
  shows "\<bar>x\<bar> < pow2 (expo64 x + 1)"
proof -
  have "pow2 (expo x + 1) \<le> pow2 (expo64 x + 1)"
    by (rule pow2_mono) (simp add: expo64_def)
  with expo_bounds(2) [OF assms] show ?thesis
    by linarith
qed

lemma expo64_lower:
  assumes "x \<noteq> 0" and "- 1022 < expo64 x"
  shows "pow2 (expo64 x) \<le> \<bar>x\<bar>"
proof -
  from assms(2) have "expo64 x = expo x"
    by (simp add: expo64_def max_def split: if_splits)
  with expo_bounds(1) [OF assms(1)] show ?thesis
    by simp
qed

lemma expo64_mono:
  assumes "0 < x" and "x \<le> y"
  shows "expo64 x \<le> expo64 y"
  using expo_mono [OF assms] by (simp add: expo64_def max_def)

lemma binary64_form:
  assumes "x \<noteq> 0"
  shows "binary64 x = of_int (round_even (x / pow2 (expo64 x - 52))) * pow2 (expo64 x - 52)"
  using assms by (simp add: binary64_def Let_def)

lemma binary64_eval:
  assumes "pow2 e \<le> \<bar>x\<bar>" and "\<bar>x\<bar> < pow2 (e + 1)" and "- 1022 \<le> e"
  shows "binary64 x = of_int (round_even (x / pow2 (e - 52))) * pow2 (e - 52)"
proof -
  from assms(1) pow2_pos [of e] have x: "x \<noteq> 0" by auto
  from x assms have "expo64 x = e"
    by (intro expo64_eq) simp_all
  with x show ?thesis
    by (simp add: binary64_form)
qed

text \<open>Below \<open>2^-1022\<close> the spacing is that of the lowest binade, \<open>2^-1074\<close>.\<close>

lemma binary64_subnormal:
  assumes "\<bar>x\<bar> < pow2 (- 1022)"
  shows "binary64 x = of_int (round_even (x / pow2 (- 1074))) * pow2 (- 1074)"
proof (cases "x = 0")
  case True
  then show ?thesis
    by (simp add: binary64_def round_even_def)
next
  case False
  have "pow2 (- 1022 + 1) = 2 * pow2 (- 1022)"
    using pow2_add [of "- 1022" 1] by (simp add: pow2_def)
  with assms pow2_pos [of "- 1022"] have "\<bar>x\<bar> < pow2 (- 1022 + 1)"
    by linarith
  with False have "expo64 x = - 1022"
    by (intro expo64_eq) simp_all
  with False show ?thesis
    by (simp add: binary64_form)
qed

lemma scaled_upper:
  assumes "0 < x"
  shows "x / pow2 (expo64 x - 52) < 2 ^ 53"
proof -
  have s: "0 < pow2 (expo64 x - 52)" by (rule pow2_pos)
  have b: "pow2 (expo64 x + 1) = 2 ^ 53 * pow2 (expo64 x - 52)"
    by (rule pow2_split)
  from assms expo64_upper [of x] have "x < pow2 (expo64 x + 1)"
    by simp
  with b s show ?thesis
    by (simp add: divide_less_eq)
qed

lemma scaled_lower:
  assumes "0 < x" and "pow2 (expo64 x) \<le> x"
  shows "2 ^ 52 \<le> x / pow2 (expo64 x - 52)"
proof -
  have s: "0 < pow2 (expo64 x - 52)" by (rule pow2_pos)
  have a: "pow2 (expo64 x) = 2 ^ 52 * pow2 (expo64 x - 52)"
    by (rule pow2_split)
  with assms(2) s show ?thesis
    by (simp add: le_divide_eq)
qed

lemma binary64_lower:
  assumes "0 < x" and "pow2 (expo64 x) \<le> x"
  shows "pow2 (expo64 x) \<le> binary64 x"
proof -
  from assms(1) have x: "x \<noteq> 0" by simp
  have s: "0 < pow2 (expo64 x - 52)" by (rule pow2_pos)
  have a: "pow2 (expo64 x) = 2 ^ 52 * pow2 (expo64 x - 52)"
    by (rule pow2_split)
  have "round_even (of_int (2 ^ 52)) \<le> round_even (x / pow2 (expo64 x - 52))"
    using scaled_lower [OF assms] by (intro round_even_mono) simp
  then have "2 ^ 52 \<le> round_even (x / pow2 (expo64 x - 52))"
    by (simp only: round_even_of_int)
  then have "(4503599627370496 :: real) \<le> of_int (round_even (x / pow2 (expo64 x - 52)))"
    by simp
  with s have "4503599627370496 * pow2 (expo64 x - 52)
      \<le> of_int (round_even (x / pow2 (expo64 x - 52))) * pow2 (expo64 x - 52)"
    by (intro mult_right_mono) simp_all
  with a show ?thesis
    by (simp add: binary64_form [OF x])
qed

lemma binary64_upper:
  assumes "0 < x"
  shows "binary64 x \<le> pow2 (expo64 x + 1)"
proof -
  from assms have x: "x \<noteq> 0" by simp
  have s: "0 < pow2 (expo64 x - 52)" by (rule pow2_pos)
  have b: "pow2 (expo64 x + 1) = 2 ^ 53 * pow2 (expo64 x - 52)"
    by (rule pow2_split)
  have "round_even (x / pow2 (expo64 x - 52)) \<le> round_even (of_int (2 ^ 53))"
    using scaled_upper [OF assms] by (intro round_even_mono) simp
  then have "round_even (x / pow2 (expo64 x - 52)) \<le> 2 ^ 53"
    by (simp only: round_even_of_int)
  then have "of_int (round_even (x / pow2 (expo64 x - 52))) \<le> (9007199254740992 :: real)"
    by simp
  with s have "of_int (round_even (x / pow2 (expo64 x - 52))) * pow2 (expo64 x - 52)
      \<le> 9007199254740992 * pow2 (expo64 x - 52)"
    by (intro mult_right_mono) simp_all
  with b show ?thesis
    by (simp add: binary64_form [OF x])
qed

lemma binary64_zero: "binary64 0 = 0"
  by (simp add: binary64_def)

lemma binary64_nonneg:
  assumes "0 \<le> x"
  shows "0 \<le> binary64 x"
proof (cases "x = 0")
  case True
  then show ?thesis by (simp add: binary64_zero)
next
  case False
  have s: "0 < pow2 (expo64 x - 52)" by (rule pow2_pos)
  with assms have "0 \<le> x / pow2 (expo64 x - 52)"
    by simp
  then have "0 \<le> \<lfloor>x / pow2 (expo64 x - 52)\<rfloor>"
    by simp
  with round_even_floor [of "x / pow2 (expo64 x - 52)"]
  have "0 \<le> round_even (x / pow2 (expo64 x - 52))"
    by linarith
  with s show ?thesis
    by (simp add: binary64_form [OF False])
qed

lemma binary64_mono_pos:
  assumes "0 < x" and "x \<le> y"
  shows "binary64 x \<le> binary64 y"
proof (cases "expo64 x = expo64 y")
  case True
  from assms have x: "x \<noteq> 0" and y: "y \<noteq> 0" by simp_all
  have s: "0 < pow2 (expo64 y - 52)" by (rule pow2_pos)
  with assms have "x / pow2 (expo64 y - 52) \<le> y / pow2 (expo64 y - 52)"
    by (simp add: divide_right_mono)
  then have "round_even (x / pow2 (expo64 y - 52)) \<le> round_even (y / pow2 (expo64 y - 52))"
    by (rule round_even_mono)
  then have "real_of_int (round_even (x / pow2 (expo64 y - 52)))
      \<le> real_of_int (round_even (y / pow2 (expo64 y - 52)))"
    by simp
  with s have "real_of_int (round_even (x / pow2 (expo64 y - 52))) * pow2 (expo64 y - 52)
      \<le> real_of_int (round_even (y / pow2 (expo64 y - 52))) * pow2 (expo64 y - 52)"
    by (intro mult_right_mono) simp_all
  then show ?thesis
    using True by (simp add: binary64_form [OF x] binary64_form [OF y])
next
  case False
  from assms have y: "0 < y" by simp
  from False expo64_mono [OF assms] have lt: "expo64 x + 1 \<le> expo64 y" by simp
  then have "pow2 (expo64 x + 1) \<le> pow2 (expo64 y)"
    by (rule pow2_mono)
  moreover from lt expo64_ge [of x] have "- 1022 < expo64 y"
    by linarith
  with y expo64_lower [of y] have "pow2 (expo64 y) \<le> y"
    by simp
  with y have "pow2 (expo64 y) \<le> binary64 y"
    by (rule binary64_lower)
  ultimately show ?thesis
    using binary64_upper [OF assms(1)] by linarith
qed

lemma binary64_mono_nonneg:
  assumes "0 \<le> x" and "x \<le> y"
  shows "binary64 x \<le> binary64 y"
proof (cases "x = 0")
  case True
  from assms have "0 \<le> binary64 y"
    by (intro binary64_nonneg) simp
  with True show ?thesis by (simp add: binary64_zero)
next
  case False
  with assms have "0 < x" by simp
  then show ?thesis using assms(2) by (rule binary64_mono_pos)
qed

text \<open>
  The rounding error is at most half the spacing: a relative error of \<open>2^-53\<close> on the
  normal range, and an absolute error of \<open>2^-1075\<close> below it.
\<close>

lemma binary64_error_max:
  "\<bar>binary64 x - x\<bar> \<le> max \<bar>x\<bar> min_normal / 2 ^ 53"
proof (cases "x = 0")
  case True
  with min_normal_pos show ?thesis by (simp add: binary64_zero)
next
  case False
  define s where "s = pow2 (expo64 x - 52)"
  have s: "0 < s" unfolding s_def by (rule pow2_pos)
  have a: "pow2 (expo64 x) = 2 ^ 52 * s"
    unfolding s_def by (rule pow2_split)
  have m: "pow2 (expo64 x) \<le> max \<bar>x\<bar> min_normal"
  proof (cases "- 1022 < expo64 x")
    case True
    with False have "pow2 (expo64 x) \<le> \<bar>x\<bar>"
      by (rule expo64_lower)
    then show ?thesis by simp
  next
    case False
    with expo64_ge [of x] have "expo64 x = - 1022"
      by linarith
    then show ?thesis
      by (simp only: pow2_subnormal)
  qed
  have "binary64 x - x = (of_int (round_even (x / s)) - x / s) * s"
    using False s by (simp add: binary64_form s_def algebra_simps)
  then have "\<bar>binary64 x - x\<bar> = \<bar>of_int (round_even (x / s)) - x / s\<bar> * s"
    using s by (simp add: abs_mult)
  also have "\<dots> \<le> 1 / 2 * s"
    using s round_even_error [of "x / s"] by (intro mult_right_mono) simp_all
  also have "\<dots> = pow2 (expo64 x) / 2 ^ 53"
    by (simp add: a)
  also have "\<dots> \<le> max \<bar>x\<bar> min_normal / 2 ^ 53"
    using m by (intro divide_right_mono) simp_all
  finally show ?thesis .
qed

lemma binary64_error:
  assumes "min_normal \<le> \<bar>x\<bar>"
  shows "\<bar>binary64 x - x\<bar> \<le> \<bar>x\<bar> / 2 ^ 53"
proof -
  from assms have "max \<bar>x\<bar> min_normal = \<bar>x\<bar>"
    by (rule max_absorb1)
  with binary64_error_max [of x] show ?thesis
    by simp
qed

lemma round_even_neg: "round_even (- x) = - round_even x"
proof (cases "x = of_int \<lfloor>x\<rfloor>")
  case True
  then obtain k where "x = of_int k" ..
  then have "- x = of_int (- k)" by simp
  then have "round_even (- x) = - k"
    by (simp only: round_even_of_int)
  with \<open>x = of_int k\<close> show ?thesis
    by (simp add: round_even_of_int)
next
  case False
  have fl: "of_int \<lfloor>x\<rfloor> \<le> x" "x < of_int \<lfloor>x\<rfloor> + 1"
    by linarith+
  with False have lt: "of_int \<lfloor>x\<rfloor> < x"
    by linarith
  have a: "of_int (- \<lfloor>x\<rfloor> - 1) \<le> - x"
    using fl(2) by linarith
  have b: "- x < of_int (- \<lfloor>x\<rfloor> - 1) + 1"
    using lt by linarith
  from a b have "\<lfloor>- x\<rfloor> = - \<lfloor>x\<rfloor> - 1"
    by (rule floor_unique)
  then show ?thesis
    using lt fl(2) by (auto simp add: round_even_def Let_def)
qed

lemma binary64_neg: "binary64 (- x) = - binary64 x"
  by (simp add: binary64_def Let_def expo64_neg round_even_neg)

lemma binary64_mono:
  assumes "x \<le> y"
  shows "binary64 x \<le> binary64 y"
proof (cases "0 \<le> x")
  case True
  then show ?thesis using assms by (rule binary64_mono_nonneg)
next
  case False
  show ?thesis
  proof (cases "0 \<le> y")
    case True
    from False have "0 \<le> binary64 (- x)"
      by (intro binary64_nonneg) simp
    then have "binary64 x \<le> 0"
      by (simp add: binary64_neg)
    with binary64_nonneg [OF True] show ?thesis
      by linarith
  next
    case y: False
    with assms have "binary64 (- y) \<le> binary64 (- x)"
      by (intro binary64_mono_nonneg) simp_all
    then show ?thesis
      by (simp add: binary64_neg)
  qed
qed



lemma overflow64_small: "\<bar>y\<bar> \<le> 2 ^ 1020 \<Longrightarrow> overflow64 y = Fin y"
proof -
  assume "\<bar>y\<bar> \<le> 2 ^ 1020"
  moreover have "(2::real) ^ 1020 < 2 ^ 1024"
    by (rule power_strict_increasing) simp_all
  ultimately have "\<not> 2 ^ 1024 \<le> \<bar>y\<bar>"
    by linarith
  then show ?thesis
    by (simp only: overflow64_def if_False)
qed

lemma overflow64_unit: "\<bar>y\<bar> \<le> 2 ^ 26 \<Longrightarrow> overflow64 y = Fin y"
proof -
  assume "\<bar>y\<bar> \<le> 2 ^ 26"
  moreover have "(2::real) ^ 26 \<le> 2 ^ 1020"
    by (rule power_increasing) simp_all
  ultimately have "\<bar>y\<bar> \<le> 2 ^ 1020"
    by linarith
  then show ?thesis
    by (rule overflow64_small)
qed

lemma overflow64_double: "\<bar>y\<bar> < 2 ^ 1024 \<Longrightarrow> overflow64 y = Fin y"
  by (simp add: overflow64_def)

lemma round_even_abs_le: "\<bar>real_of_int (round_even y)\<bar> \<le> 2 * \<bar>y\<bar>"
proof -
  have nonneg: "\<bar>real_of_int (round_even z)\<bar> \<le> 2 * \<bar>z\<bar>" if "0 \<le> z" for z :: real
  proof (cases "z < 1 / 2")
    case True
    with that have "\<lfloor>z\<rfloor> = 0"
      by (intro floor_unique) simp_all
    with True have "round_even z = 0"
      by (simp add: round_even_def)
    then show ?thesis by simp
  next
    case False
    from that have "0 \<le> \<lfloor>z\<rfloor>" by simp
    with round_even_floor [of z] have "0 \<le> round_even z"
      by linarith
    then have "0 \<le> real_of_int (round_even z)"
      by simp
    moreover from round_even_error [of z] False have "real_of_int (round_even z) \<le> 2 * z"
      by linarith
    ultimately show ?thesis
      using that by simp
  qed
  show ?thesis
  proof (cases "0 \<le> y")
    case True
    then show ?thesis by (rule nonneg)
  next
    case False
    then have "\<bar>real_of_int (round_even (- y))\<bar> \<le> 2 * \<bar>- y\<bar>"
      by (intro nonneg) simp
    then show ?thesis
      by (simp add: round_even_neg)
  qed
qed

lemma binary64_abs_le: "\<bar>binary64 x\<bar> \<le> 2 * \<bar>x\<bar>"
proof (cases "x = 0")
  case True
  then show ?thesis by (simp add: binary64_zero)
next
  case False
  define s where "s = pow2 (expo64 x - 52)"
  have s: "0 < s" unfolding s_def by (rule pow2_pos)
  have "\<bar>binary64 x\<bar> = \<bar>real_of_int (round_even (x / s))\<bar> * s"
    using s by (simp add: binary64_form [OF False] s_def abs_mult)
  also have "\<dots> \<le> 2 * \<bar>x / s\<bar> * s"
    using s round_even_abs_le [of "x / s"] by (intro mult_right_mono) simp_all
  also have "\<dots> = 2 * \<bar>x\<bar>"
    using s by simp
  finally show ?thesis .
qed

lemma double_below_one:
  assumes "is_double v" and "0 \<le> v" and "v < 1"
  shows "v \<le> 1 - 1 / 2 ^ 53"
proof (cases "v < 1 / 2")
  case True
  then show ?thesis by simp
next
  case False
  then have h: "pow2 (- 1) \<le> \<bar>v\<bar>" "\<bar>v\<bar> < pow2 (- 1 + 1)"
    using assms by (simp_all add: pow2_def)
  define k where "k = round_even (v / pow2 (- 1 - 52))"
  have e: "binary64 v = of_int k * pow2 (- 1 - 52)"
    unfolding k_def using h by (intro binary64_eval) simp_all
  have p: "pow2 (- 1 - 52) = 1 / 9007199254740992"
    by (simp add: pow2_def)
  from e have "binary64 v = of_int k * (1 / 9007199254740992)"
    by (simp only: p)
  with assms(1) have v: "v = of_int k / 9007199254740992"
    by (simp add: is_double_def)
  with assms(3) have "k < 9007199254740992"
    by simp
  then have "k \<le> 9007199254740991"
    by simp
  then have "real_of_int k \<le> 9007199254740991"
    by simp
  with v have "v \<le> 9007199254740991 / 9007199254740992"
    by simp
  then show ?thesis
    by simp
qed

lemma binary64_one: "binary64 1 = 1"
  using binary64_eval [of 0 1] by (simp add: pow2_def round_even_def)

lemma binary64_largest_square: "binary64 ((1 - 1 / 2 ^ 53)\<^sup>2) = 1 - 1 / 2 ^ 52"
  using binary64_eval [of "- 1" "(1 - 1 / 2 ^ 53)\<^sup>2"]
  by (simp add: pow2_def round_even_def power2_eq_square)

lemma binary64_ulp: "binary64 (1 / 2 ^ 52) = 1 / 2 ^ 52"
  using binary64_eval [of "- 52" "1 / 2 ^ 52"] by (simp add: pow2_def round_even_def)

lemma binary64_sqrt_ulp: "binary64 (1 / 2 ^ 26) = 1 / 2 ^ 26"
  using binary64_eval [of "- 26" "1 / 2 ^ 26"] by (simp add: pow2_def round_even_def)

lemma binary64_2_26: "binary64 (2 ^ 26) = 2 ^ 26"
  using binary64_eval [of 26 "2 ^ 26"] by (simp add: pow2_def round_even_def)

lemma sqrt_ulp: "sqrt (1 / 2 ^ 52) = 1 / 2 ^ 26"
  by (rule real_sqrt_unique) (simp_all add: power2_eq_square)

section \<open>The rounded Lorentz factor\<close>

lemma q64_bounds:
  assumes "is_double v" and "0 \<le> v" and "v < 1"
  shows "0 \<le> q64 v" and "q64 v \<le> 1 - 1 / 2 ^ 52"
proof -
  have "binary64 0 \<le> binary64 (v\<^sup>2)"
    by (rule binary64_mono_nonneg) simp_all
  then show "0 \<le> q64 v"
    by (simp add: q64_def binary64_zero)
  from double_below_one [OF assms] assms(2) have "v\<^sup>2 \<le> (1 - 1 / 2 ^ 53)\<^sup>2"
    by (intro power_mono) simp_all
  then have "binary64 (v\<^sup>2) \<le> binary64 ((1 - 1 / 2 ^ 53)\<^sup>2)"
    by (intro binary64_mono_nonneg) simp_all
  then show "q64 v \<le> 1 - 1 / 2 ^ 52"
    by (simp only: q64_def binary64_largest_square)
qed

lemma x64_bounds:
  assumes "is_double v" and "0 \<le> v" and "v < 1"
  shows "1 / 2 ^ 52 \<le> x64 v" and "x64 v \<le> 1"
proof -
  from q64_bounds [OF assms] have a: "1 / 2 ^ 52 \<le> 1 - q64 v" and b: "1 - q64 v \<le> 1"
    by simp_all
  from a have "binary64 (1 / 2 ^ 52) \<le> binary64 (1 - q64 v)"
    by (intro binary64_mono_nonneg) simp_all
  then show "1 / 2 ^ 52 \<le> x64 v"
    by (simp only: x64_def binary64_ulp)
  from a have "0 \<le> 1 - q64 v"
    by (rule order_trans [rotated]) simp
  with b have "binary64 (1 - q64 v) \<le> binary64 1"
    by (intro binary64_mono_nonneg)
  then show "x64 v \<le> 1"
    by (simp only: x64_def binary64_one)
qed

lemma s64_bounds:
  assumes "is_double v" and "0 \<le> v" and "v < 1"
  shows "1 / 2 ^ 26 \<le> s64 v" and "s64 v \<le> 1"
proof -
  from x64_bounds(1) [OF assms] have "sqrt (1 / 2 ^ 52) \<le> sqrt (x64 v)"
    by (rule real_sqrt_le_mono)
  then have a: "1 / 2 ^ 26 \<le> sqrt (x64 v)"
    by (simp only: sqrt_ulp)
  from x64_bounds(2) [OF assms] have "sqrt (x64 v) \<le> sqrt 1"
    by (rule real_sqrt_le_mono)
  then have b: "sqrt (x64 v) \<le> 1"
    by simp
  from a have "binary64 (1 / 2 ^ 26) \<le> binary64 (sqrt (x64 v))"
    by (intro binary64_mono_nonneg) simp_all
  then show "1 / 2 ^ 26 \<le> s64 v"
    by (simp only: s64_def binary64_sqrt_ulp)
  from a have "0 \<le> sqrt (x64 v)"
    by (rule order_trans [rotated]) simp
  with b have "binary64 (sqrt (x64 v)) \<le> binary64 1"
    by (intro binary64_mono_nonneg)
  then show "s64 v \<le> 1"
    by (simp only: s64_def binary64_one)
qed

lemma g64_bounds:
  assumes "is_double v" and "0 \<le> v" and "v < 1"
  shows "1 \<le> g64 v" and "g64 v \<le> 2 ^ 26"
proof -
  from s64_bounds [OF assms] have p: "0 < s64 v"
    by (simp add: less_le_trans [of 0 "1 / 2 ^ 26"])
  with s64_bounds [OF assms] have a: "1 \<le> 1 / s64 v" and b: "1 / s64 v \<le> 2 ^ 26"
    by (simp_all add: le_divide_eq divide_le_eq mult.commute)
  from a have "binary64 1 \<le> binary64 (1 / s64 v)"
    by (intro binary64_mono_nonneg) simp_all
  then show "1 \<le> g64 v"
    by (simp only: g64_def binary64_one)
  from a have "0 \<le> 1 / s64 v"
    by (rule order_trans [rotated]) simp
  with b have "binary64 (1 / s64 v) \<le> binary64 (2 ^ 26)"
    by (intro binary64_mono_nonneg)
  then show "g64 v \<le> 2 ^ 26"
    by (simp only: g64_def binary64_2_26)
qed


lemma lorentz64_finite:
  assumes "is_double v" and "0 \<le> v" and "v < 1"
  shows "calculateLorentzFactor64 (Fin v) = Inr (Fin (g64 v))"
proof -
  note q = q64_bounds [OF assms] and x = x64_bounds [OF assms]
    and s = s64_bounds [OF assms] and g = g64_bounds [OF assms]
  have small: "(1 :: real) \<le> 2 ^ 26"
    by simp
  from q small have oq: "overflow64 (binary64 (v\<^sup>2)) = Fin (q64 v)"
    unfolding q64_def [symmetric] by (intro overflow64_unit) simp
  from x have x0: "0 \<le> x64 v"
    by (simp add: order_trans [of 0 "1 / 2 ^ 52"])
  with x small have ox: "overflow64 (binary64 (1 - q64 v)) = Fin (x64 v)"
    unfolding x64_def [symmetric] by (intro overflow64_unit) simp
  from s have s0: "0 < s64 v"
    using less_le_trans [of 0 "1 / 2 ^ 26" "s64 v"] by simp
  with s small have os: "overflow64 (binary64 (sqrt (x64 v))) = Fin (s64 v)"
    unfolding s64_def [symmetric] by (intro overflow64_unit) simp
  from g have og: "overflow64 (binary64 (1 / s64 v)) = Fin (g64 v)"
    unfolding g64_def [symmetric] by (intro overflow64_unit) simp
  from assms x0 s0 show ?thesis
    by (simp add: calculateLorentzFactor64_def js_sub_def oq ox os og not_less)
qed

lemma g64_mono:
  assumes "is_double u" and "is_double v" and "0 \<le> u" and "u \<le> v" and "v < 1"
  shows "g64 u \<le> g64 v"
proof -
  from assms have u1: "u < 1" by simp
  from assms have v0: "0 \<le> v" by simp
  note bu = q64_bounds [OF assms(1,3) u1] x64_bounds [OF assms(1,3) u1]
    s64_bounds [OF assms(1,3) u1]
  note bv = q64_bounds [OF assms(2) v0 assms(5)] x64_bounds [OF assms(2) v0 assms(5)]
    s64_bounds [OF assms(2) v0 assms(5)]
  from assms(3,4) have "u\<^sup>2 \<le> v\<^sup>2"
    by (intro power_mono)
  then have q: "q64 u \<le> q64 v"
    unfolding q64_def by (intro binary64_mono_nonneg) simp_all
  from bv(2) have "0 \<le> 1 - q64 v"
    by (simp add: order_trans [of "q64 v" "1 - 1 / 2 ^ 52" 1])
  with q have x: "x64 v \<le> x64 u"
    unfolding x64_def by (intro binary64_mono_nonneg) simp_all
  then have "sqrt (x64 v) \<le> sqrt (x64 u)"
    by (rule real_sqrt_le_mono)
  moreover from bv(3) have "0 \<le> x64 v"
    by (simp add: order_trans [of 0 "1 / 2 ^ 52"])
  ultimately have s: "s64 v \<le> s64 u"
    unfolding s64_def by (intro binary64_mono_nonneg) simp_all
  from bv(5) have sv: "0 < s64 v"
    using less_le_trans [of 0 "1 / 2 ^ 26" "s64 v"] by simp
  with s have "1 / s64 u \<le> 1 / s64 v"
    by (simp add: frac_le)
  moreover from sv s have "0 \<le> 1 / s64 u"
    by simp
  ultimately show ?thesis
    unfolding g64_def by (intro binary64_mono_nonneg)
qed

lemma lorentz64_rejects:
  assumes "js_lt v (Fin 0) \<or> js_ge v (Fin 1)"
  shows "calculateLorentzFactor64 v =
    Inl (Error ''Velocity fraction must be between 0 and 1 (exclusive of 1)'')"
  using assms by (simp add: calculateLorentzFactor64_def)

lemma is_double_half: "is_double (1 / 2)"
  using binary64_eval [of "- 1" "1 / 2"] by (simp add: is_double_def pow2_def round_even_def)

lemma is_double_zero: "is_double 0"
  by (simp add: is_double_def binary64_zero)

lemma is_double_tiny: "is_double (1 / 2 ^ 30)"
  using binary64_eval [of "- 30" "1 / 2 ^ 30"]
  by (simp add: is_double_def pow2_def round_even_def)

text \<open>The values the counterexamples below pass through.\<close>

lemma sqrt_round:
  assumes "0 < k" and "pow2 e \<le> of_int k * pow2 (e - 52)"
    and "of_int k * pow2 (e - 52) < pow2 (e + 1)"
    and "((of_int k - 1 / 2) * pow2 (e - 52))\<^sup>2 < x"
    and "x < ((of_int k + 1 / 2) * pow2 (e - 52))\<^sup>2"
    and "pow2 e \<le> sqrt x" and "sqrt x < pow2 (e + 1)" and "- 1022 \<le> e"
  shows "binary64 (sqrt x) = of_int k * pow2 (e - 52)"
proof -
  have p: "0 < pow2 (e - 52)" by (rule pow2_pos)
  from assms(1) have k: "0 \<le> (of_int k - 1 / 2) * pow2 (e - 52)"
    "0 \<le> (of_int k + 1 / 2) * pow2 (e - 52)"
    using p by (simp_all add: mult_nonneg_nonneg)
  from assms(4) have "(of_int k - 1 / 2) * pow2 (e - 52) < sqrt x"
    by (rule real_less_rsqrt)
  with p have lo: "of_int k - 1 / 2 < sqrt x / pow2 (e - 52)"
    by (simp add: less_divide_eq)
  from k(2) assms(5) have "sqrt x < (of_int k + 1 / 2) * pow2 (e - 52)"
    by (intro real_less_lsqrt) simp_all
  with p have hi: "sqrt x / pow2 (e - 52) < of_int k + 1 / 2"
    by (simp add: divide_less_eq)
  from lo hi have "round_even (sqrt x / pow2 (e - 52)) = k"
    by (rule round_even_unique)
  moreover from assms(6) pow2_pos [of e] have "0 < sqrt x"
    by linarith
  with assms(6,7,8) have "binary64 (sqrt x) =
      of_int (round_even (sqrt x / pow2 (e - 52))) * pow2 (e - 52)"
    by (intro binary64_eval) simp_all
  ultimately show ?thesis by simp
qed

lemma binary64_sqrt_three_quarters:
  "binary64 (sqrt (3 / 4)) = 7800463371553962 / 9007199254740992"
proof -
  have "(1 / 2 :: real) \<le> sqrt (3 / 4)"
    by (rule real_le_rsqrt) (simp add: power2_eq_square)
  moreover have "sqrt (3 / 4) < (1 :: real)"
    by simp
  ultimately have "binary64 (sqrt (3 / 4)) = of_int 7800463371553962 * pow2 (- 1 - 52)"
    by (intro sqrt_round) (simp_all add: pow2_def power2_eq_square)
  then show ?thesis
    by (simp add: pow2_def)
qed


lemma square_half64: "js_round64 (js_pow (Fin (1 / 2)) 2) = Fin (1 / 4)"
  using binary64_eval [of "- 2" "1 / 4"]
  by (simp add: overflow64_def pow2_def round_even_def power2_eq_square)

lemma one_minus_quarter64: "js_round64 (js_sub (Fin 1) (Fin (1 / 4))) = Fin (3 / 4)"
  using binary64_eval [of "- 1" "3 / 4"]
  by (simp add: overflow64_def pow2_def round_even_def js_sub_def)

lemma sqrt_three_quarters64:
  "js_round64 (js_sqrt (Fin (3 / 4))) = Fin (7800463371553962 / 9007199254740992)"
  using binary64_sqrt_three_quarters by (simp add: overflow64_def)

lemma gamma_half64:
  "js_round64 (js_div (Fin 1) (Fin (7800463371553962 / 9007199254740992))) =
     Fin (5200308914369309 / 4503599627370496)"
  using binary64_eval [of 0 "1 / (7800463371553962 / 9007199254740992)"]
  by (simp add: overflow64_def pow2_def round_even_def)

lemma five_gamma64:
  "js_round64 (js_mul (Fin 5) (Fin (5200308914369309 / 4503599627370496))) =
     Fin (1625096535740409 / 281474976710656)"
  using binary64_eval [of 2 "5 * (5200308914369309 / 4503599627370496)"]
  by (simp add: overflow64_def pow2_def round_even_def)

lemma inverse_gamma64:
  "js_round64 (js_div (Fin 1) (Fin (5200308914369309 / 4503599627370496))) =
     Fin (7800463371553961 / 9007199254740992)"
  using binary64_eval [of "- 1" "1 / (5200308914369309 / 4503599627370496)"]
  by (simp add: overflow64_def pow2_def round_even_def)

lemma product64:
  "js_round64 (js_mul (Fin (1625096535740409 / 281474976710656))
      (Fin (7800463371553961 / 9007199254740992))) =
     Fin (5629499534213119 / 1125899906842624)"
  using binary64_eval [of 2
      "1625096535740409 / 281474976710656 * (7800463371553961 / 9007199254740992)"]
  by (simp add: overflow64_def pow2_def round_even_def)

lemma lorentz64_half:
  "calculateLorentzFactor64 (Fin (1 / 2)) =
     Inr (Fin (5200308914369309 / 4503599627370496))"
proof -
  have "\<not> (js_lt (Fin (1 / 2)) (Fin 0) \<or> js_ge (Fin (1 / 2)) (Fin 1))"
    by simp
  then show ?thesis
    unfolding calculateLorentzFactor64_def Let_def
    by (simp only: if_False square_half64 one_minus_quarter64 sqrt_three_quarters64
        gamma_half64)
qed

lemma square_tiny64: "js_round64 (js_pow (Fin (1 / 2 ^ 30)) 2) = Fin (1 / 2 ^ 60)"
  using binary64_eval [of "- 60" "1 / 2 ^ 60"]
  by (simp add: overflow64_def pow2_def round_even_def power2_eq_square)

lemma one_minus_tiny64: "js_round64 (js_sub (Fin 1) (Fin (1 / 2 ^ 60))) = Fin 1"
  using binary64_eval [of "- 1" "1 - 1 / 2 ^ 60"]
  by (simp add: overflow64_def pow2_def round_even_def js_sub_def)

lemma sqrt_one64: "js_round64 (js_sqrt (Fin 1)) = Fin 1"
  using binary64_eval [of 0 1] by (simp add: overflow64_def pow2_def round_even_def)

lemma one_over_one64: "js_round64 (js_div (Fin 1) (Fin 1)) = Fin 1"
  using binary64_eval [of 0 1] by (simp add: overflow64_def pow2_def round_even_def)

lemma square_zero64: "js_round64 (js_pow (Fin 0) 2) = Fin 0"
  by (simp add: overflow64_def binary64_def)

lemma one_minus_zero64: "js_round64 (js_sub (Fin 1) (Fin 0)) = Fin 1"
  using binary64_eval [of 0 1] by (simp add: overflow64_def pow2_def round_even_def js_sub_def)

lemma lorentz64_zero: "calculateLorentzFactor64 (Fin 0) = Inr (Fin 1)"
proof -
  have "\<not> (js_lt (Fin 0) (Fin 0) \<or> js_ge (Fin 0) (Fin 1))"
    by simp
  then show ?thesis
    unfolding calculateLorentzFactor64_def Let_def
    by (simp only: if_False square_zero64 one_minus_zero64 sqrt_one64 one_over_one64)
qed

lemma lorentz64_tiny: "calculateLorentzFactor64 (Fin (1 / 2 ^ 30)) = Inr (Fin 1)"
proof -
  have "\<not> (js_lt (Fin (1 / 2 ^ 30)) (Fin 0) \<or> js_ge (Fin (1 / 2 ^ 30)) (Fin 1))"
    by simp
  then show ?thesis
    unfolding calculateLorentzFactor64_def Let_def
    by (simp only: if_False square_tiny64 one_minus_tiny64 sqrt_one64 one_over_one64)
qed

lemma product_error:
  fixes a b x y A B :: real
  assumes "\<bar>a - x\<bar> \<le> A" and "\<bar>b - y\<bar> \<le> B"
  shows "\<bar>a * b - x * y\<bar> \<le> A * \<bar>y\<bar> + \<bar>x\<bar> * B + A * B"
proof -
  have d: "a * b - x * y = (a - x) * y + x * (b - y) + (a - x) * (b - y)"
    by (simp add: algebra_simps)
  have "\<bar>(a - x) * y + x * (b - y) + (a - x) * (b - y)\<bar>
      \<le> \<bar>(a - x) * y\<bar> + \<bar>x * (b - y)\<bar> + \<bar>(a - x) * (b - y)\<bar>"
    using abs_triangle_ineq [of "(a - x) * y + x * (b - y)" "(a - x) * (b - y)"]
      abs_triangle_ineq [of "(a - x) * y" "x * (b - y)"]
    by linarith
  then have "\<bar>a * b - x * y\<bar>
      \<le> \<bar>a - x\<bar> * \<bar>y\<bar> + \<bar>x\<bar> * \<bar>b - y\<bar> + \<bar>a - x\<bar> * \<bar>b - y\<bar>"
    unfolding d by (simp only: abs_mult)
  moreover have "\<bar>a - x\<bar> * \<bar>y\<bar> \<le> A * \<bar>y\<bar>"
    using assms(1) by (intro mult_right_mono) simp_all
  moreover have "\<bar>x\<bar> * \<bar>b - y\<bar> \<le> \<bar>x\<bar> * B"
    using assms(2) by (intro mult_left_mono) simp_all
  moreover have "\<bar>a - x\<bar> * \<bar>b - y\<bar> \<le> A * B"
    using assms by (intro mult_mono) (simp_all add: order_trans [OF abs_ge_zero])
  ultimately show ?thesis by linarith
qed

text \<open>
  The product of a rounded \<open>p * g\<close> and a rounded \<open>1 / g\<close>, rounded: each of the three
  roundings is off by at most \<open>2^-53\<close> of the larger of its operand and \<open>2^-1022\<close>.
\<close>

lemma roundtrip_error:
  assumes g1: "1 \<le> g" and g2: "g \<le> 2 ^ 26"
  shows "\<bar>binary64 (binary64 (p * g) * binary64 (1 / g)) - p\<bar>
    \<le> max \<bar>p\<bar> min_normal / 2 ^ 51"
proof -
  define u :: real where "u = 1 / 2 ^ 53"
  define M where "M = max \<bar>p\<bar> min_normal"
  define a where "a = binary64 (p * g)"
  define b where "b = binary64 (1 / g)"
  from g1 have g0: "0 < g"
    by simp
  have u0: "0 \<le> u"
    by (simp add: u_def)
  have pM: "\<bar>p\<bar> \<le> M" and nM: "min_normal \<le> M"
    by (simp_all add: M_def)
  from nM min_normal_pos have M0: "0 \<le> M"
    by linarith
  have gM: "M \<le> g * M"
    using mult_right_mono [OF g1 M0] by simp
  have "\<bar>p * g\<bar> = g * \<bar>p\<bar>"
    using g0 by (simp add: abs_mult)
  also have "\<dots> \<le> g * M"
    using pM g0 by (intro mult_left_mono) simp_all
  finally have "\<bar>p * g\<bar> \<le> g * M" .
  moreover from nM gM have "min_normal \<le> g * M"
    by linarith
  ultimately have "max \<bar>p * g\<bar> min_normal \<le> g * M"
    by simp
  then have "max \<bar>p * g\<bar> min_normal / 2 ^ 53 \<le> g * M / 2 ^ 53"
    by (intro divide_right_mono) simp_all
  with binary64_error_max [of "p * g"] have "\<bar>a - p * g\<bar> \<le> g * M / 2 ^ 53"
    unfolding a_def by linarith
  then have ea: "\<bar>a - p * g\<bar> \<le> u * (g * M)"
    by (simp add: u_def)
  from g0 g2 have "1 / 2 ^ 26 \<le> 1 / g"
    by (intro divide_left_mono) simp_all
  moreover from g0 have "\<bar>1 / g\<bar> = 1 / g"
    by simp
  ultimately have "min_normal \<le> \<bar>1 / g\<bar>"
    using min_normal_small by linarith
  then have "\<bar>b - 1 / g\<bar> \<le> \<bar>1 / g\<bar> / 2 ^ 53"
    unfolding b_def by (rule binary64_error)
  with g0 have eb: "\<bar>b - 1 / g\<bar> \<le> u * (1 / g)"
    by (simp add: u_def)
  from g0 have pg: "p * g * (1 / g) = p"
    by simp
  from g0 have t1: "u * (g * M) * \<bar>1 / g\<bar> = u * M"
    by simp
  from g0 have "\<bar>p * g\<bar> * (u * (1 / g)) = u * \<bar>p\<bar>"
    by (simp add: abs_mult)
  also have "\<dots> \<le> u * M"
    using pM u0 by (intro mult_left_mono)
  finally have t2: "\<bar>p * g\<bar> * (u * (1 / g)) \<le> u * M" .
  from g0 have t3: "u * (g * M) * (u * (1 / g)) = u * u * M"
    by simp
  define T where "T = \<bar>p * g\<bar> * (u * (1 / g))"
  from product_error [OF ea eb] have "\<bar>a * b - p\<bar> \<le> u * M + T + u * u * M"
    unfolding T_def by (simp only: pg t1 t3)
  moreover from t2 have "T \<le> u * M"
    by (simp only: T_def)
  ultimately have "\<bar>a * b - p\<bar> \<le> u * M + u * M + u * u * M"
    by linarith
  then have eab: "\<bar>a * b - p\<bar> \<le> (u + u + u * u) * M"
    by (simp add: algebra_simps)
  have "\<bar>a * b\<bar> \<le> \<bar>a * b - p\<bar> + \<bar>p\<bar>"
    by simp
  with eab pM have ab: "\<bar>a * b\<bar> \<le> (1 + (u + u + u * u)) * M"
    by (simp add: algebra_simps)
  have "M * 1 \<le> M * (1 + (u + u + u * u))"
    using M0 u0 by (intro mult_left_mono) simp_all
  with nM have "min_normal \<le> (1 + (u + u + u * u)) * M"
    by (simp add: mult.commute)
  with ab have "max \<bar>a * b\<bar> min_normal \<le> (1 + (u + u + u * u)) * M"
    by simp
  then have "max \<bar>a * b\<bar> min_normal / 2 ^ 53 \<le> (1 + (u + u + u * u)) * M / 2 ^ 53"
    by (intro divide_right_mono) simp_all
  with binary64_error_max [of "a * b"]
  have "\<bar>binary64 (a * b) - a * b\<bar> \<le> (1 + (u + u + u * u)) * M / 2 ^ 53"
    by linarith
  then have er: "\<bar>binary64 (a * b) - a * b\<bar> \<le> u * ((1 + (u + u + u * u)) * M)"
    by (simp add: u_def)
  have "\<bar>binary64 (a * b) - p\<bar> \<le> \<bar>binary64 (a * b) - a * b\<bar> + \<bar>a * b - p\<bar>"
    by simp
  with er eab have "\<bar>binary64 (a * b) - p\<bar>
      \<le> u * ((1 + (u + u + u * u)) * M) + (u + u + u * u) * M"
    by linarith
  also have "\<dots> = (u * (1 + (u + u + u * u)) + (u + u + u * u)) * M"
    by (simp add: algebra_simps)
  also have "\<dots> \<le> (1 / 2 ^ 51) * M"
    using M0 by (intro mult_right_mono) (simp_all add: u_def)
  finally show ?thesis
    by (simp add: a_def b_def M_def)
qed

section \<open>The Lorentz factor: bounds and order\<close>

text \<open>
  Claim C5, as stated, fails in the arithmetic of the code: the factor is not strictly
  increasing. The velocities \<open>0\<close> and \<open>2^-30\<close> are both doubles in \<open>[0,1)\<close>, and the rounded
  computation returns exactly 1 for both, because \<open>1 - 2^-60\<close> rounds to 1.
\<close>

theorem lorentz_factor_strictness_counterexample:
  "is_double 0 \<and> is_double (1 / 2 ^ 30)
   \<and> js_lt (Fin 0) (Fin (1 / 2 ^ 30)) \<and> js_lt (Fin (1 / 2 ^ 30)) (Fin 1)
   \<and> calculateLorentzFactor64 (Fin 0) = Inr (Fin 1)
   \<and> calculateLorentzFactor64 (Fin (1 / 2 ^ 30)) = Inr (Fin 1)"
  by (intro conjI lorentz64_zero lorentz64_tiny is_double_zero is_double_tiny) simp_all

text \<open>
  Claim C5, amended. With every operation rounded to binary64, for every double \<open>v\<close> in
  \<open>[0,1)\<close> the Lorentz factor is a finite number at least 1, it is exactly 1 at \<open>v = 0\<close>,
  and it is non-decreasing on the doubles of \<open>[0,1)\<close>; for every number below 0 or at
  least 1 (the infinities included) the function fails with an error. In exact real
  arithmetic the same holds for every real \<open>v\<close> in \<open>[0,1)\<close>, and there the factor is
  strictly increasing.
\<close>

theorem lorentz_factor_properties:
  "(\<forall>v. is_double v \<and> 0 \<le> v \<and> v < 1 \<longrightarrow>
      (\<exists>g. calculateLorentzFactor64 (Fin v) = Inr (Fin g) \<and> 1 \<le> g))
   \<and> calculateLorentzFactor64 (Fin 0) = Inr (Fin 1)
   \<and> (\<forall>u v. is_double u \<and> is_double v \<and> 0 \<le> u \<and> u \<le> v \<and> v < 1 \<longrightarrow>
        (\<exists>g h. calculateLorentzFactor64 (Fin u) = Inr (Fin g)
               \<and> calculateLorentzFactor64 (Fin v) = Inr (Fin h) \<and> g \<le> h))
   \<and> (\<forall>v. js_lt v (Fin 0) \<or> js_ge v (Fin 1) \<longrightarrow>
        (\<exists>msg. calculateLorentzFactor64 v = Inl (Error msg)))
   \<and> (\<forall>v. 0 \<le> v \<and> v < 1 \<longrightarrow>
        (\<exists>g. calculateLorentzFactor (Fin v) = Inr (Fin g) \<and> 1 \<le> g))
   \<and> calculateLorentzFactor (Fin 0) = Inr (Fin 1)
   \<and> (\<forall>u v. 0 \<le> u \<and> u < v \<and> v < 1 \<longrightarrow>
        (\<exists>g h. calculateLorentzFactor (Fin u) = Inr (Fin g)
               \<and> calculateLorentzFactor (Fin v) = Inr (Fin h) \<and> g < h))
   \<and> (\<forall>v. js_lt v (Fin 0) \<or> js_ge v (Fin 1) \<longrightarrow>
        (\<exists>msg. calculateLorentzFactor v = Inl (Error msg)))"
proof (intro conjI allI impI)
  fix v :: real
  assume "is_double v \<and> 0 \<le> v \<and> v < 1"
  then show "\<exists>g. calculateLorentzFactor64 (Fin v) = Inr (Fin g) \<and> 1 \<le> g"
    using lorentz64_finite [of v] g64_bounds(1) [of v] by blast
next
  show "calculateLorentzFactor64 (Fin 0) = Inr (Fin 1)"
    by (rule lorentz64_zero)
next
  fix u v :: real
  assume a: "is_double u \<and> is_double v \<and> 0 \<le> u \<and> u \<le> v \<and> v < 1"
  then have "calculateLorentzFactor64 (Fin u) = Inr (Fin (g64 u))"
    by (intro lorentz64_finite) simp_all
  moreover from a have "calculateLorentzFactor64 (Fin v) = Inr (Fin (g64 v))"
    by (intro lorentz64_finite) simp_all
  moreover from a have "g64 u \<le> g64 v"
    by (intro g64_mono) simp_all
  ultimately show "\<exists>g h. calculateLorentzFactor64 (Fin u) = Inr (Fin g)
               \<and> calculateLorentzFactor64 (Fin v) = Inr (Fin h) \<and> g \<le> h"
    by blast
next
  fix v
  assume "js_lt v (Fin 0) \<or> js_ge v (Fin 1)"
  then show "\<exists>msg. calculateLorentzFactor64 v = Inl (Error msg)"
    using lorentz64_rejects [of v] by blast
next
  fix v :: real
  assume "0 \<le> v \<and> v < 1"
  then show "\<exists>g. calculateLorentzFactor (Fin v) = Inr (Fin g) \<and> 1 \<le> g"
    using lorentz_finite [of v] lorentz_ge_one [of v] by blast
next
  show "calculateLorentzFactor (Fin 0) = Inr (Fin 1)"
    by (rule lorentz_zero)
next
  fix u v :: real
  assume "0 \<le> u \<and> u < v \<and> v < 1"
  then show "\<exists>g h. calculateLorentzFactor (Fin u) = Inr (Fin g)
               \<and> calculateLorentzFactor (Fin v) = Inr (Fin h) \<and> g < h"
    using lorentz_finite [of u] lorentz_finite [of v] lorentz_strict_mono [of u v]
    by auto
next
  fix v
  assume "js_lt v (Fin 0) \<or> js_ge v (Fin 1)"
  then show "\<exists>msg. calculateLorentzFactor v = Inl (Error msg)"
    using lorentz_rejects [of v] by blast
qed

theorem lorentz_factor_properties_witness:
  "is_double (1 / 2) \<and> is_double 0 \<and> (0::real) \<le> 1 / 2 \<and> (1 / 2 :: real) < 1
   \<and> (\<exists>g. calculateLorentzFactor64 (Fin (1 / 2)) = Inr (Fin g) \<and> 1 \<le> g)
   \<and> (\<exists>g h. calculateLorentzFactor64 (Fin 0) = Inr (Fin g)
            \<and> calculateLorentzFactor64 (Fin (1 / 2)) = Inr (Fin h) \<and> g \<le> h)
   \<and> (\<exists>g h. calculateLorentzFactor (Fin 0) = Inr (Fin g)
            \<and> calculateLorentzFactor (Fin (1 / 2)) = Inr (Fin h) \<and> g < h)
   \<and> js_ge (Fin 1) (Fin 1)
   \<and> (\<exists>msg. calculateLorentzFactor64 (Fin 1) = Inl (Error msg))
   \<and> (\<exists>msg. calculateLorentzFactor (Fin 1) = Inl (Error msg))"
proof -
  note p = lorentz_factor_properties
  from p have "\<forall>v. is_double v \<and> 0 \<le> v \<and> v < 1 \<longrightarrow>
      (\<exists>g. calculateLorentzFactor64 (Fin v) = Inr (Fin g) \<and> 1 \<le> g)"
    by (elim conjE)
  then have 1: "\<exists>g. calculateLorentzFactor64 (Fin (1 / 2)) = Inr (Fin g) \<and> 1 \<le> g"
    by (elim allE [of _ "1 / 2 :: real"]) (simp add: is_double_half)
  from p have "\<forall>u v. is_double u \<and> is_double v \<and> 0 \<le> u \<and> u \<le> v \<and> v < 1 \<longrightarrow>
        (\<exists>g h. calculateLorentzFactor64 (Fin u) = Inr (Fin g)
               \<and> calculateLorentzFactor64 (Fin v) = Inr (Fin h) \<and> g \<le> h)"
    by (elim conjE)
  then have 2: "\<exists>g h. calculateLorentzFactor64 (Fin 0) = Inr (Fin g)
            \<and> calculateLorentzFactor64 (Fin (1 / 2)) = Inr (Fin h) \<and> g \<le> h"
    by (elim allE [of _ "0 :: real"] allE [of _ "1 / 2 :: real"])
      (simp add: is_double_half is_double_zero)
  from p have "\<forall>u v. 0 \<le> u \<and> u < v \<and> v < 1 \<longrightarrow>
        (\<exists>g h. calculateLorentzFactor (Fin u) = Inr (Fin g)
               \<and> calculateLorentzFactor (Fin v) = Inr (Fin h) \<and> g < h)"
    by (elim conjE)
  then have 3: "\<exists>g h. calculateLorentzFactor (Fin 0) = Inr (Fin g)
            \<and> calculateLorentzFactor (Fin (1 / 2)) = Inr (Fin h) \<and> g < h"
    by (elim allE [of _ "0 :: real"] allE [of _ "1 / 2 :: real"]) simp
  from p have "\<forall>v. js_lt v (Fin 0) \<or> js_ge v (Fin 1) \<longrightarrow>
        (\<exists>msg. calculateLorentzFactor64 v = Inl (Error msg))"
    by (elim conjE)
  then have 4: "\<exists>msg. calculateLorentzFactor64 (Fin 1) = Inl (Error msg)"
    by (elim allE [of _ "Fin 1"]) simp
  from p have "\<forall>v. js_lt v (Fin 0) \<or> js_ge v (Fin 1) \<longrightarrow>
        (\<exists>msg. calculateLorentzFactor v = Inl (Error msg))"
    by (elim conjE)
  then have 5: "\<exists>msg. calculateLorentzFactor (Fin 1) = Inl (Error msg)"
    by (elim allE [of _ "Fin 1"]) simp
  from 1 2 3 4 5 show ?thesis
    by (simp add: is_double_half is_double_zero)
qed

section \<open>Time dilation times length contraction\<close>

text \<open>
  Claim C6, as stated, fails in the arithmetic of the code: at \<open>v = 1/2\<close> and proper
  time 5, the dilated time times the contraction of the unit length, each operation
  rounded to binary64, is \<open>5 - 2^-50\<close>, not 5.
\<close>

theorem dilation_contraction_roundtrip_counterexample:
  "is_double (1 / 2)
   \<and> calculateTimeDilation64 (Fin 5) (Fin (1 / 2)) =
     Inr (Fin (1625096535740409 / 281474976710656))
   \<and> calculateLengthContraction64 (Fin 1) (Fin (1 / 2)) =
     Inr (Fin (7800463371553961 / 9007199254740992))
   \<and> js_round64 (js_mul (Fin (1625096535740409 / 281474976710656))
        (Fin (7800463371553961 / 9007199254740992))) =
     Fin (5629499534213119 / 1125899906842624)
   \<and> js_lt (Fin (5629499534213119 / 1125899906842624)) (Fin 5)"
proof (intro conjI)
  show "is_double (1 / 2)"
    by (rule is_double_half)
  show "calculateTimeDilation64 (Fin 5) (Fin (1 / 2)) =
     Inr (Fin (1625096535740409 / 281474976710656))"
    unfolding calculateTimeDilation64_def
    by (simp only: lorentz64_half sum.case five_gamma64)
  show "calculateLengthContraction64 (Fin 1) (Fin (1 / 2)) =
     Inr (Fin (7800463371553961 / 9007199254740992))"
    unfolding calculateLengthContraction64_def
    by (simp only: lorentz64_half sum.case inverse_gamma64)
  show "js_round64 (js_mul (Fin (1625096535740409 / 281474976710656))
        (Fin (7800463371553961 / 9007199254740992))) =
     Fin (5629499534213119 / 1125899906842624)"
    by (rule product64)
  show "js_lt (Fin (5629499534213119 / 1125899906842624)) (Fin 5)"
    by simp
qed

text \<open>
  Below \<open>2^-1022\<close> the error is no longer small relative to the proper time. At the
  velocity \<open>2^-13\<close> the rounded Lorentz factor is \<open>1 + 2^-27\<close> and its rounded inverse
  \<open>1 - 2^-27\<close>; for the subnormal proper time \<open>p = 201326591 * 2^-1074\<close> the dilated
  time rounds to \<open>201326592 * 2^-1074\<close> and the product to \<open>201326590 * 2^-1074\<close>, one
  spacing below \<open>p\<close>.
\<close>

lemma is_double_small_velocity: "is_double (1 / 2 ^ 13)"
  using binary64_eval [of "- 13" "1 / 2 ^ 13"]
  by (simp add: is_double_def pow2_def round_even_def)

lemma square_small64: "js_round64 (js_pow (Fin (1 / 2 ^ 13)) 2) = Fin (1 / 2 ^ 26)"
  using binary64_eval [of "- 26" "1 / 2 ^ 26"]
  by (simp add: overflow64_def pow2_def round_even_def power2_eq_square)

lemma one_minus_small64:
  "js_round64 (js_sub (Fin 1) (Fin (1 / 2 ^ 26))) = Fin (67108863 / 67108864)"
  using binary64_eval [of "- 1" "67108863 / 67108864"]
  by (simp add: overflow64_def pow2_def round_even_def js_sub_def)

lemma binary64_sqrt_small:
  "binary64 (sqrt (67108863 / 67108864)) = 134217727 / 134217728"
proof -
  have "(1 / 2 :: real) \<le> sqrt (67108863 / 67108864)"
    by (rule real_le_rsqrt) (simp add: power2_eq_square)
  moreover have "sqrt (67108863 / 67108864) < (1 :: real)"
    by simp
  ultimately have "binary64 (sqrt (67108863 / 67108864)) =
      of_int 9007199187632128 * pow2 (- 1 - 52)"
    by (intro sqrt_round) (simp_all add: pow2_def power2_eq_square)
  then show ?thesis
    by (simp add: pow2_def)
qed

lemma sqrt_small64:
  "js_round64 (js_sqrt (Fin (67108863 / 67108864))) = Fin (134217727 / 134217728)"
  using binary64_sqrt_small by (simp add: overflow64_def)

lemma gamma_small64:
  "js_round64 (js_div (Fin 1) (Fin (134217727 / 134217728))) =
     Fin (134217729 / 134217728)"
  using binary64_eval [of 0 "1 / (134217727 / 134217728)"]
  by (simp add: overflow64_def pow2_def round_even_def)

lemma lorentz64_small:
  "calculateLorentzFactor64 (Fin (1 / 2 ^ 13)) = Inr (Fin (134217729 / 134217728))"
proof -
  have "\<not> (js_lt (Fin (1 / 2 ^ 13)) (Fin 0) \<or> js_ge (Fin (1 / 2 ^ 13)) (Fin 1))"
    by simp
  then show ?thesis
    unfolding calculateLorentzFactor64_def Let_def
    by (simp only: if_False square_small64 one_minus_small64 sqrt_small64 gamma_small64)
qed

lemma inverse_gamma_small64:
  "js_round64 (js_div (Fin 1) (Fin (134217729 / 134217728))) =
     Fin (134217727 / 134217728)"
  using binary64_eval [of "- 1" "1 / (134217729 / 134217728)"]
  by (simp add: overflow64_def pow2_def round_even_def)

lemma is_double_subnormal: "is_double (201326591 / 2 ^ 1074)"
  using binary64_subnormal [of "201326591 / 2 ^ 1074"]
  by (simp add: is_double_def pow2_def round_even_def)

lemma subnormal_dilation64:
  "js_round64 (js_mul (Fin (201326591 / 2 ^ 1074)) (Fin (134217729 / 134217728))) =
     Fin (201326592 / 2 ^ 1074)"
  using binary64_subnormal [of "201326591 / 2 ^ 1074 * (134217729 / 134217728)"]
  by (simp add: overflow64_def pow2_def round_even_def)

lemma subnormal_product64:
  "js_round64 (js_mul (Fin (201326592 / 2 ^ 1074)) (Fin (134217727 / 134217728))) =
     Fin (201326590 / 2 ^ 1074)"
  using binary64_subnormal [of "201326592 / 2 ^ 1074 * (134217727 / 134217728)"]
  by (simp add: overflow64_def pow2_def round_even_def)

lemma roundtrip_subnormal:
  "is_double (1 / 2 ^ 13) \<and> is_double (201326591 / 2 ^ 1074)
   \<and> calculateTimeDilation64 (Fin (201326591 / 2 ^ 1074)) (Fin (1 / 2 ^ 13)) =
       Inr (Fin (201326592 / 2 ^ 1074))
   \<and> calculateLengthContraction64 (Fin 1) (Fin (1 / 2 ^ 13)) =
       Inr (Fin (134217727 / 134217728))
   \<and> js_round64 (js_mul (Fin (201326592 / 2 ^ 1074)) (Fin (134217727 / 134217728))) =
       Fin (201326590 / 2 ^ 1074)"
proof (intro conjI)
  show "is_double (1 / 2 ^ 13)"
    by (rule is_double_small_velocity)
  show "is_double (201326591 / 2 ^ 1074)"
    by (rule is_double_subnormal)
  show "calculateTimeDilation64 (Fin (201326591 / 2 ^ 1074)) (Fin (1 / 2 ^ 13)) =
       Inr (Fin (201326592 / 2 ^ 1074))"
    unfolding calculateTimeDilation64_def
    by (simp only: lorentz64_small sum.case subnormal_dilation64)
  show "calculateLengthContraction64 (Fin 1) (Fin (1 / 2 ^ 13)) =
       Inr (Fin (134217727 / 134217728))"
    unfolding calculateLengthContraction64_def
    by (simp only: lorentz64_small sum.case inverse_gamma_small64)
  show "js_round64 (js_mul (Fin (201326592 / 2 ^ 1074)) (Fin (134217727 / 134217728))) =
       Fin (201326590 / 2 ^ 1074)"
    by (rule subnormal_product64)
qed

text \<open>
  Claim C6, amended. For every velocity fraction \<open>v\<close> in \<open>[0,1)\<close> and every finite proper
  time \<open>p\<close>, both calls succeed. In exact real arithmetic the dilated time multiplied by
  the contraction of the unit length is \<open>p\<close>. With every operation rounded to binary64
  (\<open>v\<close> a double, \<open>|p| \<le> 2^990\<close> so that nothing overflows) the product is \<open>p\<close> only up
  to rounding: it differs from \<open>p\<close> by at most \<open>2^-51\<close> times the larger of \<open>|p|\<close> and
  \<open>2^-1022\<close>. So the error is at most \<open>|p| / 2^51\<close> when \<open>|p|\<close> is at least \<open>2^-1022\<close>, and at
  most \<open>2^-1073\<close> for a smaller \<open>p\<close>, where the intermediate results are subnormal and
  the error is no longer small relative to \<open>p\<close>.
\<close>

theorem dilation_contraction_roundtrip:
  "0 \<le> v \<Longrightarrow> v < 1 \<Longrightarrow>
     (\<exists>a b. calculateTimeDilation (Fin p) (Fin v) = Inr a
          \<and> calculateLengthContraction (Fin 1) (Fin v) = Inr b
          \<and> js_mul a b = Fin p)
   \<and> (is_double v \<and> \<bar>p\<bar> \<le> 2 ^ 990 \<longrightarrow>
        (\<exists>a b r. calculateTimeDilation64 (Fin p) (Fin v) = Inr (Fin a)
            \<and> calculateLengthContraction64 (Fin 1) (Fin v) = Inr (Fin b)
            \<and> js_round64 (js_mul (Fin a) (Fin b)) = Fin r
            \<and> \<bar>r - p\<bar> \<le> max \<bar>p\<bar> min_normal / 2 ^ 51
            \<and> (min_normal \<le> \<bar>p\<bar> \<longrightarrow> \<bar>r - p\<bar> \<le> \<bar>p\<bar> / 2 ^ 51)))"
proof (intro conjI impI)
  assume v: "0 \<le> v" "v < 1"
  then show "\<exists>a b. calculateTimeDilation (Fin p) (Fin v) = Inr a
          \<and> calculateLengthContraction (Fin 1) (Fin v) = Inr b
          \<and> js_mul a b = Fin p"
    using lorentz_finite [of v] lorentz_denominator [of v]
    by (simp add: calculateTimeDilation_def calculateLengthContraction_def)
  assume "is_double v \<and> \<bar>p\<bar> \<le> 2 ^ 990"
  then have d: "is_double v" and pb: "\<bar>p\<bar> \<le> 2 ^ 990"
    by simp_all
  define g where "g = g64 v"
  define a where "a = binary64 (p * g)"
  define b where "b = binary64 (1 / g)"
  define r where "r = binary64 (a * b)"
  have lf: "calculateLorentzFactor64 (Fin v) = Inr (Fin g)"
    unfolding g_def using d v by (rule lorentz64_finite)
  have g1: "1 \<le> g" and g2: "g \<le> 2 ^ 26"
    unfolding g_def using g64_bounds [OF d v] by simp_all
  from g1 have g0: "0 < g"
    by simp
  have "\<bar>p * g\<bar> = \<bar>p\<bar> * g"
    using g0 by (simp add: abs_mult)
  also have "\<dots> \<le> 2 ^ 990 * 2 ^ 26"
    using pb g2 g0 by (intro mult_mono) simp_all
  also have "\<dots> = (2::real) ^ 1016"
    by (simp only: power_add [symmetric]) simp
  finally have pg: "\<bar>p * g\<bar> \<le> 2 ^ 1016" .
  have "\<bar>a\<bar> \<le> 2 * \<bar>p * g\<bar>"
    unfolding a_def by (rule binary64_abs_le)
  also have "\<dots> \<le> 2 * 2 ^ 1016"
    using pg by simp
  also have "\<dots> = (2::real) ^ 1017"
    by simp
  finally have ab: "\<bar>a\<bar> \<le> 2 ^ 1017" .
  have "(2::real) ^ 1017 \<le> 2 ^ 1020"
    by (rule power_increasing) simp_all
  with ab have oa: "overflow64 a = Fin a"
    by (intro overflow64_small) simp
  have b0: "0 \<le> b"
    unfolding b_def using g0 by (intro binary64_nonneg) simp
  have "binary64 (1 / g) \<le> binary64 1"
    using g1 by (intro binary64_mono) (simp add: divide_le_eq)
  then have b1: "b \<le> 1"
    by (simp only: b_def binary64_one)
  have "(1::real) \<le> 2 ^ 1020"
    by simp
  with b0 b1 have ob: "overflow64 b = Fin b"
    by (intro overflow64_small) simp
  have "\<bar>a * b\<bar> = \<bar>a\<bar> * b"
    using b0 by (simp add: abs_mult)
  also have "\<dots> \<le> 2 ^ 1017 * 1"
    using ab b0 b1 by (intro mult_mono) simp_all
  finally have abb: "\<bar>a * b\<bar> \<le> 2 ^ 1017"
    by simp
  have "\<bar>r\<bar> \<le> 2 * \<bar>a * b\<bar>"
    unfolding r_def by (rule binary64_abs_le)
  also have "\<dots> \<le> 2 * 2 ^ 1017"
    using abb by simp
  also have "\<dots> = (2::real) ^ 1018"
    by simp
  finally have rb: "\<bar>r\<bar> \<le> 2 ^ 1018" .
  have "(2::real) ^ 1018 \<le> 2 ^ 1020"
    by (rule power_increasing) simp_all
  with rb have orr: "overflow64 r = Fin r"
    by (intro overflow64_small) simp
  have e: "\<bar>r - p\<bar> \<le> max \<bar>p\<bar> min_normal / 2 ^ 51"
    unfolding r_def a_def b_def using g1 g2 by (rule roundtrip_error)
  have n: "\<bar>r - p\<bar> \<le> \<bar>p\<bar> / 2 ^ 51" if "min_normal \<le> \<bar>p\<bar>"
  proof -
    from that have "max \<bar>p\<bar> min_normal = \<bar>p\<bar>"
      by (rule max_absorb1)
    with e show ?thesis
      by simp
  qed
  have "calculateTimeDilation64 (Fin p) (Fin v) = Inr (Fin a)"
    by (simp add: calculateTimeDilation64_def lf a_def [symmetric] oa)
  moreover from g0 have "calculateLengthContraction64 (Fin 1) (Fin v) = Inr (Fin b)"
    by (simp add: calculateLengthContraction64_def lf b_def [symmetric] ob)
  moreover have "js_round64 (js_mul (Fin a) (Fin b)) = Fin r"
    by (simp add: r_def [symmetric] orr)
  ultimately show "\<exists>a b r. calculateTimeDilation64 (Fin p) (Fin v) = Inr (Fin a)
            \<and> calculateLengthContraction64 (Fin 1) (Fin v) = Inr (Fin b)
            \<and> js_round64 (js_mul (Fin a) (Fin b)) = Fin r
            \<and> \<bar>r - p\<bar> \<le> max \<bar>p\<bar> min_normal / 2 ^ 51
            \<and> (min_normal \<le> \<bar>p\<bar> \<longrightarrow> \<bar>r - p\<bar> \<le> \<bar>p\<bar> / 2 ^ 51)"
    using e n by blast
qed

lemma min_normal_below_five: "min_normal \<le> \<bar>5\<bar>"
  using min_normal_small by simp

theorem dilation_contraction_roundtrip_witness:
  "(0::real) \<le> 1 / 2 \<and> (1 / 2 :: real) < 1 \<and> is_double (1 / 2)
   \<and> \<bar>5 :: real\<bar> \<le> 2 ^ 990 \<and> min_normal \<le> \<bar>5\<bar>
   \<and> (\<exists>a b. calculateTimeDilation (Fin 5) (Fin (1 / 2)) = Inr a
          \<and> calculateLengthContraction (Fin 1) (Fin (1 / 2)) = Inr b
          \<and> js_mul a b = Fin 5)
   \<and> (\<exists>a b r. calculateTimeDilation64 (Fin 5) (Fin (1 / 2)) = Inr (Fin a)
            \<and> calculateLengthContraction64 (Fin 1) (Fin (1 / 2)) = Inr (Fin b)
            \<and> js_round64 (js_mul (Fin a) (Fin b)) = Fin r
            \<and> \<bar>r - 5\<bar> \<le> max \<bar>5\<bar> min_normal / 2 ^ 51
            \<and> \<bar>r - 5\<bar> \<le> \<bar>5\<bar> / 2 ^ 51)"
proof -
  have "\<bar>5 :: real\<bar> \<le> 2 ^ 990"
    using power_increasing [of 3 990 "2 :: real"] by simp
  with dilation_contraction_roundtrip [of "1 / 2" 5] is_double_half min_normal_below_five
  show ?thesis
    by simp
qed

section \<open>Length contraction\<close>

lemma contraction64_negative:
  "js_round64 (js_div (Fin (- 1)) (Fin (5200308914369309 / 4503599627370496))) =
     Fin (- (7800463371553961 / 9007199254740992))"
  using binary64_eval [of "- 1" "- 1 / (5200308914369309 / 4503599627370496)"]
  by (simp add: overflow64_def pow2_def round_even_def)

text \<open>
  Claim C7, as stated, fails for a negative proper length. In the arithmetic of the
  code, at \<open>v = 1/2\<close> the length \<open>-1\<close> contracts to about \<open>-0.866\<close>, which is greater than
  \<open>-1\<close>; in exact arithmetic, at \<open>v = 3/5\<close> it contracts to \<open>-4/5\<close>.
\<close>

theorem length_contraction_counterexample:
  "is_double (- 1) \<and> is_double (1 / 2)
   \<and> calculateLengthContraction64 (Fin (- 1)) (Fin (1 / 2)) =
       Inr (Fin (- (7800463371553961 / 9007199254740992)))
   \<and> js_lt (Fin (- 1)) (Fin (- (7800463371553961 / 9007199254740992)))
   \<and> calculateLengthContraction (Fin (- 1)) (Fin (3 / 5)) = Inr (Fin (- (4 / 5)))
   \<and> js_lt (Fin (- 1)) (Fin (- (4 / 5)))"
proof (intro conjI)
  show "is_double (- 1)"
    by (simp add: is_double_def binary64_neg binary64_one)
  show "is_double (1 / 2)"
    by (rule is_double_half)
  show "calculateLengthContraction64 (Fin (- 1)) (Fin (1 / 2)) =
       Inr (Fin (- (7800463371553961 / 9007199254740992)))"
    unfolding calculateLengthContraction64_def
    by (simp only: lorentz64_half sum.case contraction64_negative)
  show "js_lt (Fin (- 1)) (Fin (- (7800463371553961 / 9007199254740992)))"
    by simp
  show "calculateLengthContraction (Fin (- 1)) (Fin (3 / 5)) = Inr (Fin (- (4 / 5)))"
    by (simp add: calculateLengthContraction_def lorentz_three_fifths)
  show "js_lt (Fin (- 1)) (Fin (- (4 / 5)))"
    by simp
qed

lemma contraction_exact:
  assumes "0 \<le> v" and "v < 1"
  shows "\<exists>g. calculateLorentzFactor (Fin v) = Inr (Fin g)
        \<and> calculateLengthContraction (Fin L) (Fin v) = Inr (Fin (L / g))
        \<and> (0 \<le> L \<longrightarrow> L / g \<le> L) \<and> (L \<le> 0 \<longrightarrow> L \<le> L / g)"
proof -
  define g where "g = 1 / sqrt (1 - v\<^sup>2)"
  have g1: "1 \<le> g"
    unfolding g_def using assms by (rule lorentz_ge_one)
  have "calculateLorentzFactor (Fin v) = Inr (Fin g)"
    unfolding g_def using assms by (rule lorentz_finite)
  moreover from this g1 have "calculateLengthContraction (Fin L) (Fin v) = Inr (Fin (L / g))"
    by (simp add: calculateLengthContraction_def)
  moreover from g1 have "0 \<le> L \<longrightarrow> L / g \<le> L"
    by (simp add: divide_le_eq mult_left_mono [of 1 g L, simplified])
  moreover from g1 have "L \<le> 0 \<longrightarrow> L \<le> L / g"
    by (simp add: le_divide_eq mult_left_mono_neg [of 1 g L, simplified])
  ultimately show ?thesis by blast
qed

lemma contraction_rounded:
  assumes "is_double v" and "0 \<le> v" and "v < 1" and "is_double L"
  shows "\<exists>g c. calculateLorentzFactor64 (Fin v) = Inr (Fin g)
        \<and> calculateLengthContraction64 (Fin L) (Fin v) = Inr (Fin c)
        \<and> js_round64 (js_div (Fin L) (Fin g)) = Fin c
        \<and> (0 \<le> L \<longrightarrow> c \<le> L) \<and> (L \<le> 0 \<longrightarrow> L \<le> c)"
proof -
  define g where "g = g64 v"
  define c where "c = binary64 (L / g)"
  have g1: "1 \<le> g"
    unfolding g_def using assms(1-3) by (rule g64_bounds)
  have lf: "calculateLorentzFactor64 (Fin v) = Inr (Fin g)"
    unfolding g_def using assms(1-3) by (rule lorentz64_finite)
  from assms(4) have L: "binary64 L = L" and Lb: "\<bar>L\<bar> < 2 ^ 1024"
    by (simp_all add: is_double_def)
  have up: "0 \<le> c \<and> c \<le> L" if "0 \<le> L"
  proof -
    from g1 that have "0 \<le> L / g" "L / g \<le> L"
      by (simp_all add: divide_le_eq mult_left_mono [of 1 g L, simplified])
    then have "0 \<le> binary64 (L / g)" "binary64 (L / g) \<le> binary64 L"
      by (simp_all add: binary64_nonneg binary64_mono)
    with L show ?thesis
      by (simp add: c_def)
  qed
  have down: "L \<le> c \<and> c \<le> 0" if "L \<le> 0"
  proof -
    from g1 that have "L \<le> L / g" "L / g \<le> 0"
      by (simp_all add: le_divide_eq divide_le_eq mult_left_mono_neg [of 1 g L, simplified])
    then have "binary64 L \<le> binary64 (L / g)" "binary64 (L / g) \<le> binary64 0"
      by (simp_all add: binary64_mono)
    with L show ?thesis
      by (simp add: c_def binary64_zero)
  qed
  from up down have "\<bar>c\<bar> \<le> \<bar>L\<bar>"
    by (cases "0 \<le> L") simp_all
  with Lb have "overflow64 c = Fin c"
    by (intro overflow64_double) simp
  with g1 have r: "js_round64 (js_div (Fin L) (Fin g)) = Fin c"
    by (simp add: c_def [symmetric])
  with lf have lc: "calculateLengthContraction64 (Fin L) (Fin v) = Inr (Fin c)"
    by (simp add: calculateLengthContraction64_def)
  from lf lc r up down show ?thesis by blast
qed

text \<open>
  Claim C7, amended. For every proper length \<open>L\<close> and every \<open>v\<close> in \<open>[0,1)\<close> the contracted
  length is \<open>L\<close> divided by the Lorentz factor of \<open>v\<close>; it is at most \<open>L\<close> when \<open>L\<close> is
  not negative, and at least \<open>L\<close> when \<open>L\<close> is not positive. This holds in exact
  arithmetic and, for doubles \<open>L\<close> and \<open>v\<close>, with the division rounded to binary64.
\<close>

theorem length_contraction_bounds:
  "0 \<le> v \<Longrightarrow> v < 1 \<Longrightarrow>
     (\<exists>g. calculateLorentzFactor (Fin v) = Inr (Fin g)
        \<and> calculateLengthContraction (Fin L) (Fin v) = Inr (Fin (L / g))
        \<and> (0 \<le> L \<longrightarrow> L / g \<le> L) \<and> (L \<le> 0 \<longrightarrow> L \<le> L / g))
   \<and> (is_double v \<and> is_double L \<longrightarrow>
        (\<exists>g c. calculateLorentzFactor64 (Fin v) = Inr (Fin g)
           \<and> calculateLengthContraction64 (Fin L) (Fin v) = Inr (Fin c)
           \<and> js_round64 (js_div (Fin L) (Fin g)) = Fin c
           \<and> (0 \<le> L \<longrightarrow> c \<le> L) \<and> (L \<le> 0 \<longrightarrow> L \<le> c)))"
  using contraction_exact [of v L] contraction_rounded [of v L] by blast

lemma is_double_two: "is_double 2"
  using binary64_eval [of 1 2] by (simp add: is_double_def pow2_def round_even_def)

theorem length_contraction_bounds_witness:
  "(0::real) \<le> 1 / 2 \<and> (1 / 2 :: real) < 1 \<and> (0::real) \<le> 2
   \<and> is_double (1 / 2) \<and> is_double 2
   \<and> (\<exists>g. calculateLorentzFactor (Fin (1 / 2)) = Inr (Fin g)
        \<and> calculateLengthContraction (Fin 2) (Fin (1 / 2)) = Inr (Fin (2 / g))
        \<and> 2 / g \<le> 2)
   \<and> (\<exists>g c. calculateLorentzFactor64 (Fin (1 / 2)) = Inr (Fin g)
        \<and> calculateLengthContraction64 (Fin 2) (Fin (1 / 2)) = Inr (Fin c)
        \<and> js_round64 (js_div (Fin 2) (Fin g)) = Fin c
        \<and> c \<le> 2)"
  using length_contraction_bounds [of "1 / 2" 2]
  by (simp add: is_double_half is_double_two)

section \<open>Momentum and energy at rest\<close>










section \<open>The journey at zero velocity\<close>

lemma formatTime_PInf:
  "formatTime PInf = \<lparr>years = Some PInf, months = None, days = None, hours = None,
     totalYears = PInf, formatted = ''Infinity years''\<rparr>"
  by (simp add: formatTime_def)

lemma all_effects_zero:
  "calculateAllEffects (Fin 0) =
     Inr \<lparr>velocityFraction = Fin 0, percentageOfLightSpeed = Fin 0, lorentzFactor = Fin 1,
          timeDilationFactor = Fin 1, lengthContractionFactor = Fin 1\<rparr>"
  by (simp add: calculateAllEffects_def lorentz_zero fractionToPercentage_def)

lemma distance_effects_zero:
  assumes "0 < d"
  shows "calculateDistanceEffects (Fin d) (Fin 0) =
     Inr \<lparr>de_properDistance = Fin d, de_contractedDistance = Fin d,
          de_contractionFactor = Fin 1, de_coordinateTime = PInf, de_properTime = PInf,
          de_properTimeFormatted = formatTime PInf,
          de_coordinateTimeFormatted = formatTime PInf,
          de_timeDilationFactor = NaN\<rparr>"
  using assms
  by (simp add: calculateDistanceEffects_def calculateContractedDistance_def lorentz_zero
      calculateTravelTimeInYears_def calculateProperTravelTimeInYears_def signed_inf_def)

lemma journey_rejects_iff:
  "(\<exists>e. calculateAllEffectsWithDistance v dl = Inl e) =
     (js_lt v (Fin 0) \<or> js_ge v (Fin 1))"
  by (simp add: calculateAllEffectsWithDistance_def calculateAllEffects_def
      calculateDistanceEffects_def calculateContractedDistance_def
      calculateProperTravelTimeInYears_def fractionToPercentage_def
      calculateLorentzFactor_def Let_def)

text \<open>
  Claim C1, as stated, fails: with velocity fraction 0 and the distance 4.24 (the call
  the application makes on its first render) the journey function returns a snapshot,
  and its travel times are plus infinity.
\<close>

theorem journey_at_zero_velocity_counterexample:
  "calculateAllEffectsWithDistance (Fin 0) (Fin 4.24) =
       Inr \<lparr>velocityFraction = Fin 0, percentageOfLightSpeed = Fin 0, lorentzFactor = Fin 1,
            timeDilationFactor = Fin 1, lengthContractionFactor = Fin 1,
            properDistance = Fin 4.24, contractedDistance = Fin 4.24,
            coordinateTime = PInf, properTime = PInf,
            properTimeFormatted =
              \<lparr>years = Some PInf, months = None, days = None, hours = None,
               totalYears = PInf, formatted = ''Infinity years''\<rparr>,
            coordinateTimeFormatted =
              \<lparr>years = Some PInf, months = None, days = None, hours = None,
               totalYears = PInf, formatted = ''Infinity years''\<rparr>\<rparr>"
  by (simp add: formatTime_PInf calculateAllEffectsWithDistance_def
      all_effects_zero distance_effects_zero
      RelativisticEffects.defs RelativisticDistanceEffects.defs)

text \<open>
  Claim C1, amended. For every distance \<open>d > 0\<close>, \<^verbatim>\<open>calculateTravelTimeInYears\<close> at
  velocity 0 returns plus infinity, and \<^verbatim>\<open>calculateAllEffectsWithDistance\<close> at velocity
  0 raises no error: it returns the snapshot with Lorentz factor 1, contracted distance
  \<open>d\<close>, and coordinate and proper time plus infinity, both rendered as
  \<^verbatim>\<open>Infinity years\<close>. The function fails exactly when the velocity fraction is below 0
  or at least 1.
\<close>

theorem journey_at_zero_velocity:
  "0 < d \<Longrightarrow>
     calculateTravelTimeInYears (Fin d) (Fin 0) = PInf
   \<and> calculateAllEffectsWithDistance (Fin 0) (Fin d) =
       Inr \<lparr>velocityFraction = Fin 0, percentageOfLightSpeed = Fin 0, lorentzFactor = Fin 1,
            timeDilationFactor = Fin 1, lengthContractionFactor = Fin 1,
            properDistance = Fin d, contractedDistance = Fin d,
            coordinateTime = PInf, properTime = PInf,
            properTimeFormatted = formatTime PInf,
            coordinateTimeFormatted = formatTime PInf\<rparr>
   \<and> formatted (formatTime PInf) = ''Infinity years''
   \<and> ((\<exists>e. calculateAllEffectsWithDistance v dl = Inl e) =
        (js_lt v (Fin 0) \<or> js_ge v (Fin 1)))"
proof (intro conjI)
  assume d: "0 < d"
  then show "calculateTravelTimeInYears (Fin d) (Fin 0) = PInf"
    by (simp add: calculateTravelTimeInYears_def signed_inf_def)
  from d show "calculateAllEffectsWithDistance (Fin 0) (Fin d) =
       Inr \<lparr>velocityFraction = Fin 0, percentageOfLightSpeed = Fin 0, lorentzFactor = Fin 1,
            timeDilationFactor = Fin 1, lengthContractionFactor = Fin 1,
            properDistance = Fin d, contractedDistance = Fin d,
            coordinateTime = PInf, properTime = PInf,
            properTimeFormatted = formatTime PInf,
            coordinateTimeFormatted = formatTime PInf\<rparr>"
    by (simp add: calculateAllEffectsWithDistance_def all_effects_zero distance_effects_zero
        RelativisticEffects.defs RelativisticDistanceEffects.defs)
  show "formatted (formatTime PInf) = ''Infinity years''"
    by (simp add: formatTime_PInf)
  show "(\<exists>e. calculateAllEffectsWithDistance v dl = Inl e) =
        (js_lt v (Fin 0) \<or> js_ge v (Fin 1))"
    by (rule journey_rejects_iff)
qed

theorem journey_at_zero_velocity_witness:
  "(0::real) < 1
   \<and> calculateTravelTimeInYears (Fin 1) (Fin 0) = PInf
   \<and> coordinateTime (projr (calculateAllEffectsWithDistance (Fin 0) (Fin 1))) = PInf
   \<and> js_ge (Fin 2) (Fin 1)
   \<and> (\<exists>e. calculateAllEffectsWithDistance (Fin 2) (Fin 1) = Inl e)"
  using journey_at_zero_velocity [of 1 "Fin 2" "Fin 1"] by simp

section \<open>The clock driven by the application\<close>

text \<open>
  The factor the clock multiplies by is its prop \<^verbatim>\<open>timeDilationFactor\<close>. The application,
  the only caller, passes the field \<^verbatim>\<open>timeDilationFactor\<close> of the snapshot that
  \<^verbatim>\<open>calculateAllEffectsWithDistance\<close> returns for the velocity fraction of the slider,
  which is the Lorentz factor. For a finite velocity fraction outside \<open>[0,1)\<close> the call
  throws during rendering and no factor reaches the clock; inside, the factor is a finite
  number at least 1.
\<close>

lemma journey_factor:
  assumes "0 \<le> v" and "v < 1"
  shows "\<exists>eff g. calculateAllEffectsWithDistance (Fin v) dl = Inr eff
    \<and> timeDilationFactor eff = Fin g \<and> 1 \<le> g"
proof -
  have "calculateAllEffects (Fin v) =
      Inr \<lparr>velocityFraction = Fin v, percentageOfLightSpeed = Fin (v * 100),
           lorentzFactor = Fin (1 / sqrt (1 - v\<^sup>2)),
           timeDilationFactor = Fin (1 / sqrt (1 - v\<^sup>2)),
           lengthContractionFactor = js_div (Fin 1) (Fin (1 / sqrt (1 - v\<^sup>2)))\<rparr>"
    using assms
    by (simp add: calculateAllEffects_def lorentz_finite fractionToPercentage_def)
  moreover have "\<exists>de. calculateDistanceEffects dl (Fin v) = Inr de"
    using assms
    by (simp add: calculateDistanceEffects_def calculateContractedDistance_def
        calculateProperTravelTimeInYears_def lorentz_finite Let_def)
  ultimately show ?thesis
    using lorentz_ge_one [OF assms]
    by (auto simp add: calculateAllEffectsWithDistance_def RelativisticEffects.defs)
qed

text \<open>
  Claim C4. Under any sequence of ticks and factor changes whose timestamps are
  non-decreasing, between any two points of the sequence the traveler accumulator does
  not decrease, and neither does the observer accumulator, the factor in force at every
  tick being at least 1; and when the sequence starts with both accumulators at 0, the
  observer time is at least the traveler time at every point. That the factor is at
  least 1 is what the application guarantees: for every finite velocity fraction in
  \<open>[0,1)\<close> the snapshot's \<^verbatim>\<open>timeDilationFactor\<close> is a finite number at least 1 (in exact
  arithmetic and, for a double, with every operation rounded), and for every other finite
  velocity fraction the call fails.
\<close>

theorem clock_accumulators_nondecreasing:
  "(0 \<le> v \<and> v < 1 \<longrightarrow>
      (\<exists>eff g. calculateAllEffectsWithDistance (Fin v) dl = Inr eff
         \<and> timeDilationFactor eff = Fin g \<and> 1 \<le> g))
   \<and> (is_double v \<and> 0 \<le> v \<and> v < 1 \<longrightarrow>
        (\<exists>g. calculateLorentzFactor64 (Fin v) = Inr (Fin g) \<and> 1 \<le> g))
   \<and> (w < 0 \<or> 1 \<le> w \<longrightarrow>
        (\<exists>e. calculateAllEffectsWithDistance (Fin w) dl = Inl e)
        \<and> (\<exists>e. calculateLorentzFactor64 (Fin w) = Inl e))
   \<and> (nondecreasing_ticks s (es @ fs) \<longrightarrow>
        spacecraftTime (run es s) \<le> spacecraftTime (run (es @ fs) s))
   \<and> (nondecreasing_ticks s (es @ fs) \<and> factor_at_least 1 s (es @ fs) \<longrightarrow>
        earthTime (run es s) \<le> earthTime (run (es @ fs) s)
        \<and> (spacecraftTime s = 0 \<and> earthTime s = 0 \<longrightarrow>
             spacecraftTime (run es s) \<le> earthTime (run es s)))"
proof (intro conjI impI)
  assume "0 \<le> v \<and> v < 1"
  then show "\<exists>eff g. calculateAllEffectsWithDistance (Fin v) dl = Inr eff
         \<and> timeDilationFactor eff = Fin g \<and> 1 \<le> g"
    by (intro journey_factor) simp_all
next
  assume "is_double v \<and> 0 \<le> v \<and> v < 1"
  then show "\<exists>g. calculateLorentzFactor64 (Fin v) = Inr (Fin g) \<and> 1 \<le> g"
    using lorentz64_finite [of v] g64_bounds(1) [of v] by blast
next
  assume w: "w < 0 \<or> 1 \<le> w"
  then have "js_lt (Fin w) (Fin 0) \<or> js_ge (Fin w) (Fin 1)"
    by simp
  then show "\<exists>e. calculateAllEffectsWithDistance (Fin w) dl = Inl e"
    by (simp only: journey_rejects_iff)
  from w have "js_lt (Fin w) (Fin 0) \<or> js_ge (Fin w) (Fin 1)"
    by simp
  then show "\<exists>e. calculateLorentzFactor64 (Fin w) = Inl e"
    using lorentz64_rejects [of "Fin w"] by blast
next
  assume "nondecreasing_ticks s (es @ fs)"
  then show "spacecraftTime (run es s) \<le> spacecraftTime (run (es @ fs) s)"
    by (simp add: run_append nondecreasing_ticks_append traveler_mono)
next
  assume a: "nondecreasing_ticks s (es @ fs) \<and> factor_at_least 1 s (es @ fs)"
  then have n: "nondecreasing_ticks s es" "nondecreasing_ticks (run es s) fs"
    and f: "factor_at_least 1 s es" "factor_at_least 1 (run es s) fs"
    by (simp_all add: nondecreasing_ticks_append factor_at_least_append)
  from f(2) have "factor_at_least 0 (run es s) fs"
    by (intro factor_at_least_weaken [of 0 1]) simp_all
  with n(2) show "earthTime (run es s) \<le> earthTime (run (es @ fs) s)"
    by (simp add: run_append observer_mono)
  assume "spacecraftTime s = 0 \<and> earthTime s = 0"
  with n(1) f(1) show "spacecraftTime (run es s) \<le> earthTime (run es s)"
    by (intro observer_ahead) simp_all
qed

theorem clock_accumulators_nondecreasing_witness:
  "(0::real) \<le> 1 / 2 \<and> (1 / 2 :: real) < 1 \<and> is_double (1 / 2) \<and> (1::real) \<le> 2
   \<and> (\<exists>eff g. calculateAllEffectsWithDistance (Fin (1 / 2)) (Fin 4.24) = Inr eff
         \<and> timeDilationFactor eff = Fin g \<and> 1 \<le> g)
   \<and> (\<exists>g. calculateLorentzFactor64 (Fin (1 / 2)) = Inr (Fin g) \<and> 1 \<le> g)
   \<and> (\<exists>e. calculateAllEffectsWithDistance (Fin 2) (Fin 4.24) = Inl e)
   \<and> (\<exists>e. calculateLorentzFactor64 (Fin 2) = Inl e)
   \<and> nondecreasing_ticks (mount 0 2) ([Tick 1000] @ [SetDilation 5, Tick 2000])
   \<and> factor_at_least 1 (mount 0 2) ([Tick 1000] @ [SetDilation 5, Tick 2000])
   \<and> spacecraftTime (mount 0 2) = 0 \<and> earthTime (mount 0 2) = 0
   \<and> spacecraftTime (run [Tick 1000] (mount 0 2))
        \<le> spacecraftTime (run ([Tick 1000] @ [SetDilation 5, Tick 2000]) (mount 0 2))
   \<and> earthTime (run [Tick 1000] (mount 0 2))
        \<le> earthTime (run ([Tick 1000] @ [SetDilation 5, Tick 2000]) (mount 0 2))
   \<and> spacecraftTime (run [Tick 1000] (mount 0 2)) \<le> earthTime (run [Tick 1000] (mount 0 2))"
  using clock_accumulators_nondecreasing
    [of "1 / 2" "Fin 4.24" 2 "mount 0 2" "[Tick 1000]" "[SetDilation 5, Tick 2000]"]
    is_double_half
  by (simp add: mount_def tick_def setTimeDilation_def)



section \<open>formatTime: the sign of the components\<close>






lemma formatTime_day: "formatTime (Fin (1 / 365)) =
   \<lparr>years = None, months = None, days = Some (Fin 1), hours = Some (Fin 0),
    totalYears = Fin (1 / 365), formatted = ''1 day''\<rparr>"
  by (simp add: formatTime_def Let_def DAYS_PER_YEAR_def DAYS_PER_MONTH_def HOURS_PER_DAY_def
      plural_def real_to_string_def digit_char_def trunc_def js_gt_def)




section \<open>formatTime: the plural suffix\<close>

lemma plural_eq: "plural c = (if c = Fin 1 then [] else ''s'')"
  by (cases c) (simp_all add: plural_def)

lemma formatted_small:
  assumes "\<not> js_ge t (Fin 1)"
  shows "\<exists>ps. ps \<noteq> []
      \<and> (\<forall>(c, u) \<in> set ps. component (formatTime t) u = Some c)
      \<and> formatted (formatTime t) = join_comma (map (\<lambda>(c, u). unit_text c u) ps)"
proof -
  define totalDays where "totalDays = js_mul t (Fin DAYS_PER_YEAR)"
  consider (mo) "js_ge totalDays (Fin DAYS_PER_MONTH)"
    | (da) "\<not> js_ge totalDays (Fin DAYS_PER_MONTH)" "js_ge totalDays (Fin 1)"
    | (ho) "\<not> js_ge totalDays (Fin DAYS_PER_MONTH)" "\<not> js_ge totalDays (Fin 1)"
    by blast
  then show ?thesis
  proof cases
    case mo
    define m where "m = js_floor (js_div totalDays (Fin DAYS_PER_MONTH))"
    define d where "d = js_floor (js_mod totalDays (Fin DAYS_PER_MONTH))"
    define h where "h = js_floor (js_mul (js_mod totalDays (Fin 1)) (Fin HOURS_PER_DAY))"
    let ?ps = "(m, ''month'') # (if js_gt d (Fin 0) then [(d, ''day'')] else [])
       @ (if js_gt h (Fin 0) then [(h, ''hour'')] else [])"
    have "?ps \<noteq> []" by simp
    moreover have "\<forall>(c, u) \<in> set ?ps. component (formatTime t) u = Some c"
      using assms mo
      by (simp add: formatTime_def Let_def component_def totalDays_def m_def d_def h_def)
    moreover have "formatted (formatTime t) = join_comma (map (\<lambda>(c, u). unit_text c u) ?ps)"
      using assms mo
      by (simp add: formatTime_def Let_def unit_text_def plural_eq totalDays_def m_def d_def h_def)
    ultimately show ?thesis by blast
  next
    case da
    define d where "d = js_floor totalDays"
    define h where "h = js_floor (js_mul (js_mod totalDays (Fin 1)) (Fin HOURS_PER_DAY))"
    let ?ps = "(d, ''day'') # (if js_gt h (Fin 0) then [(h, ''hour'')] else [])"
    have "?ps \<noteq> []" by simp
    moreover have "\<forall>(c, u) \<in> set ?ps. component (formatTime t) u = Some c"
      using assms da
      by (simp add: formatTime_def Let_def component_def totalDays_def d_def h_def)
    moreover have "formatted (formatTime t) = join_comma (map (\<lambda>(c, u). unit_text c u) ?ps)"
      using assms da
      by (simp add: formatTime_def Let_def unit_text_def plural_eq totalDays_def d_def h_def)
    ultimately show ?thesis by blast
  next
    case ho
    define h where "h = js_div
       (js_round (js_mul (js_mul totalDays (Fin HOURS_PER_DAY)) (Fin 10))) (Fin 10)"
    let ?ps = "[(h, ''hour'')]"
    have "?ps \<noteq> []" by simp
    moreover have "\<forall>(c, u) \<in> set ?ps. component (formatTime t) u = Some c"
      using assms ho
      by (simp add: formatTime_def Let_def component_def totalDays_def h_def)
    moreover have "formatted (formatTime t) = join_comma (map (\<lambda>(c, u). unit_text c u) ?ps)"
      using assms ho
      by (simp add: formatTime_def Let_def unit_text_def plural_eq totalDays_def h_def)
    ultimately show ?thesis by blast
  qed
qed

lemma formatted_years:
  "js_ge t (Fin 1) \<Longrightarrow> formatted (formatTime t) = toFixed t 2 @ '' years''"
  by (simp add: formatTime_def)


text \<open>
  Claim C9, as stated, fails for the years unit: a years component of exactly 1 is
  rendered \<^verbatim>\<open>1.00 years\<close>, with the suffix.
\<close>

theorem years_suffix_counterexample:
  "formatTime (Fin 1) =
    \<lparr>years = Some (Fin 1), months = None, days = None, hours = None,
     totalYears = Fin 1, formatted = ''1.00 years''\<rparr>"
  by (simp add: formatTime_def Let_def real_toFixed_def pad_zeros_def digit_char_def)

text \<open>
  Claim C9, amended. When the duration is below 1 year (or NaN), the canonical string is
  a non-empty list of texts joined by \<^verbatim>\<open>, \<close>, one for a month, day or hour component of
  the result, and each text is the value, the unit, and \<^verbatim>\<open>s\<close> if and only if the value is
  not exactly 1. When the duration is at least 1 year, the string is the value with two
  decimals followed by \<^verbatim>\<open> years\<close>, whatever the value.
\<close>

theorem unit_suffix_rule:
  "(\<not> js_ge t (Fin 1) \<longrightarrow>
      (\<exists>ps. ps \<noteq> []
         \<and> (\<forall>(c, u) \<in> set ps. component (formatTime t) u = Some c)
         \<and> formatted (formatTime t) = join_comma (map (\<lambda>(c, u). unit_text c u) ps)))
   \<and> (js_ge t (Fin 1) \<longrightarrow> formatted (formatTime t) = toFixed t 2 @ '' years'')"
  using formatted_small [of t] formatted_years [of t] by blast

theorem unit_suffix_rule_witness:
  "\<not> js_ge (Fin (1 / 365)) (Fin 1)
   \<and> (\<exists>ps. ps \<noteq> []
         \<and> (\<forall>(c, u) \<in> set ps. component (formatTime (Fin (1 / 365))) u = Some c)
         \<and> formatted (formatTime (Fin (1 / 365))) =
             join_comma (map (\<lambda>(c, u). unit_text c u) ps))
   \<and> formatted (formatTime (Fin (1 / 365))) = ''1 day''
   \<and> js_ge (Fin 2) (Fin 1)
   \<and> formatted (formatTime (Fin 2)) = toFixed (Fin 2) 2 @ '' years''
   \<and> toFixed (Fin 2) 2 @ '' years'' = ''2.00 years''"
  using unit_suffix_rule [of "Fin (1 / 365)"] unit_suffix_rule [of "Fin 2"]
  by (simp add: formatTime_day real_toFixed_def pad_zeros_def digit_char_def)

end
